theory Spec2Isabelle
  imports Complex_Main
begin

section \<open>Invoice ledger and vendor-profile reconciliation\<close>

text \<open>
  A shallow embedding of the ledger logic of the invoice manager: \<^verbatim>\<open>src/types.ts\<close>,
  \<^verbatim>\<open>src/App.tsx\<close> (\<^verbatim>\<open>validateInvoice\<close>, \<^verbatim>\<open>handleCapture\<close>, \<^verbatim>\<open>handleSaveInvoice\<close>,
  \<^verbatim>\<open>handleBulkDelete\<close>, \<^verbatim>\<open>handleBulkMarkPaid\<close>, \<^verbatim>\<open>handleEditInvoice\<close>, \<^verbatim>\<open>renderView\<close>),
  \<^verbatim>\<open>src/components/InvoiceForm.tsx\<close> (\<^verbatim>\<open>calculateTotal\<close>, \<^verbatim>\<open>validate\<close>, \<^verbatim>\<open>handleSave\<close>)
  and the Gemini service (\<^verbatim>\<open>extractInvoiceData\<close>).

  Conventions of the embedding.
  \<^item> A JavaScript \<^verbatim>\<open>number\<close> that carries money or a quantity is a \<^typ>\<open>rat\<close>: every
    finite double is a rational, and the arithmetic is taken exact (rounding, NaN and
    the infinities of IEEE doubles are outside the model). \<^verbatim>\<open>invoiceCount\<close>, which the code
    only ever sets to 1, increments and decrements, is an \<^typ>\<open>int\<close>.
  \<^item> A string is a \<^typ>\<open>string\<close>; \<^verbatim>\<open>toLowerCase\<close> folds the ASCII letters and \<^verbatim>\<open>trim\<close>
    strips the ASCII white space. The cased letters and the white space that
    JavaScript knows beyond ASCII are outside the model; every concrete input below is
    ASCII.
  \<^item> A property that may be missing (\<^verbatim>\<open>undefined\<close>) is an \<^typ>\<open>'a option\<close>; the truthiness
    tests of the source (\<^verbatim>\<open>!x\<close>, \<^verbatim>\<open>x || d\<close>) are written out.
  \<^item> Each value the environment supplies is a parameter: the results of
    \<^verbatim>\<open>crypto.randomUUID()\<close>, the time stamp \<^verbatim>\<open>new Date().toISOString()\<close>, the answer of the
    \<^verbatim>\<open>confirm\<close> dialog and the response of the extraction service.
  \<^item> The React state of \<^verbatim>\<open>App\<close> is a record that every handler takes and returns.
    A handler runs as one step on the current state: it reads the collections as they
    are when it runs, and its state updates take effect together. In the code
    \<^verbatim>\<open>handleSaveInvoice\<close> reads \<^verbatim>\<open>profiles\<close> from the render that created the handler; a
    capture whose answer arrives after the profiles have changed in between would start
    from the older profile collection, which the model does not represent (the invoice
    collection is not concerned: it is read inside the state updater). The timer that
    clears a notification and the loading flag \<^verbatim>\<open>isAnalyzing\<close> are left out.
\<close>

subsection \<open>Strings\<close>

definition upperCaseLetters :: string where
  "upperCaseLetters = ''ABCDEFGHIJKLMNOPQRSTUVWXYZ''"

definition lowerCaseLetters :: string where
  "lowerCaseLetters = ''abcdefghijklmnopqrstuvwxyz''"

definition toLowerChar :: "char \<Rightarrow> char" where
  "toLowerChar c =
     (case map_of (zip upperCaseLetters lowerCaseLetters) c of
        None \<Rightarrow> c
      | Some l \<Rightarrow> l)"

definition toLowerCase :: "string \<Rightarrow> string" where
  "toLowerCase s = map toLowerChar s"

definition isWhiteSpace :: "char \<Rightarrow> bool" where
  "isWhiteSpace c \<longleftrightarrow>
     c \<in> set [CHR 0x20, CHR 0x09, CHR 0x0A, CHR 0x0B, CHR 0x0C, CHR 0x0D]"

definition trim :: "string \<Rightarrow> string" where
  "trim s = rev (dropWhile isWhiteSpace (rev (dropWhile isWhiteSpace s)))"

subsection \<open>The data model of \<^verbatim>\<open>types.ts\<close>\<close>

record InvoiceItem =
  item_id :: string
  description :: string
  quantity :: rat
  rate :: rat

datatype InvoiceStatus = PAID | UNPAID

datatype DerivedStatus = D_PAID | D_UNPAID | D_OVERDUE

datatype InvoiceType = expense | income

record CustomerProfile =
  profile_id :: string
  name :: string
  totalSpent :: rat
  invoiceCount :: int
  lastInvoiceDate :: string

record Invoice =
  invoice_id :: string
  vendorName :: string
  profileId :: "string option"
  date :: string
  dueDate :: string
  items :: "InvoiceItem list"
  inv_total :: rat
  category :: string
  tags :: "string list"
  inv_type :: InvoiceType
  currency :: string
  status :: InvoiceStatus
  updatedAt :: string

datatype ViewState = DASHBOARD | SCANNING | EDITING | MANUAL_ENTRY

text \<open>\<^verbatim>\<open>Partial<Invoice>\<close>: the draft handed to the editing form (\<^verbatim>\<open>scannedData\<close>).\<close>

record Draft =
  d_id :: "string option"
  d_vendorName :: "string option"
  d_profileId :: "string option"
  d_date :: "string option"
  d_dueDate :: "string option"
  d_items :: "InvoiceItem list option"
  d_total :: "rat option"
  d_category :: "string option"
  d_tags :: "string list option"
  d_type :: "InvoiceType option"
  d_currency :: "string option"
  d_status :: "InvoiceStatus option"
  d_updatedAt :: "string option"

definition emptyDraft :: Draft where
  "emptyDraft =
     \<lparr>d_id = None, d_vendorName = None, d_profileId = None, d_date = None,
      d_dueDate = None, d_items = None, d_total = None, d_category = None,
      d_tags = None, d_type = None, d_currency = None, d_status = None,
      d_updatedAt = None\<rparr>"

text \<open>A stored invoice seen as a draft (\<^verbatim>\<open>setScannedData(invoice)\<close>).\<close>

definition draftOfInvoice :: "Invoice \<Rightarrow> Draft" where
  "draftOfInvoice iv =
     \<lparr>d_id = Some (invoice_id iv), d_vendorName = Some (vendorName iv),
      d_profileId = profileId iv, d_date = Some (date iv),
      d_dueDate = Some (dueDate iv), d_items = Some (items iv),
      d_total = Some (inv_total iv), d_category = Some (category iv),
      d_tags = Some (tags iv), d_type = Some (inv_type iv),
      d_currency = Some (currency iv), d_status = Some (status iv),
      d_updatedAt = Some (updatedAt iv)\<rparr>"

datatype NotificationType = success | error

text \<open>The messages of \<^verbatim>\<open>showNotification\<close>, by the place that raises them.\<close>

datatype Message =
    OcrNoContent
  | AnalysisFailed
  | ServiceError string
  | OcrFailed
  | ItemsNotIterable
  | AutoSaved
  | Deleted nat
  | MarkedPaid nat

record AppState =
  invoices :: "Invoice list"
  profiles :: "CustomerProfile list"
  view :: ViewState
  scannedData :: "Draft option"
  notification :: "(Message \<times> NotificationType) option"

definition initialState :: AppState where
  "initialState =
     \<lparr>invoices = [], profiles = [], view = DASHBOARD, scannedData = None,
      notification = None\<rparr>"

subsection \<open>Saving an invoice: \<^verbatim>\<open>handleSaveInvoice\<close>\<close>

text \<open>\<^verbatim>\<open>Array.prototype.findIndex\<close>; \<open>None\<close> stands for the result \<^verbatim>\<open>-1\<close>.\<close>

fun findIndex :: "('a \<Rightarrow> bool) \<Rightarrow> 'a list \<Rightarrow> nat option" where
  "findIndex P [] = None"
| "findIndex P (x # xs) = (if P x then Some 0 else map_option Suc (findIndex P xs))"

text \<open>The comparison both \<^verbatim>\<open>findIndex\<close> calls and the sweep use (App.tsx 130, 140, 162).\<close>

definition sameVendor :: "string \<Rightarrow> CustomerProfile \<Rightarrow> bool" where
  "sameVendor vendor p \<longleftrightarrow> toLowerCase (name p) = toLowerCase vendor"

text \<open>App.tsx 129-138: take back the contribution of the stored version.\<close>

definition undoExisting :: "Invoice \<Rightarrow> CustomerProfile list \<Rightarrow> CustomerProfile list" where
  "undoExisting existingInvoice updatedProfiles =
     (case findIndex (sameVendor (vendorName existingInvoice)) updatedProfiles of
        None \<Rightarrow> updatedProfiles
      | Some oldProfileIndex \<Rightarrow>
          updatedProfiles[oldProfileIndex :=
            (updatedProfiles ! oldProfileIndex)
              \<lparr>totalSpent :=
                 max 0 (totalSpent (updatedProfiles ! oldProfileIndex)
                          - inv_total existingInvoice),
               invoiceCount :=
                 max 0 (invoiceCount (updatedProfiles ! oldProfileIndex) - 1)\<rparr>])"

text \<open>App.tsx 140-160: count the invoice on its vendor's profile, or push a new one.\<close>

definition applyInvoice ::
  "string \<Rightarrow> Invoice \<Rightarrow> CustomerProfile list \<Rightarrow> CustomerProfile list \<times> string" where
  "applyInvoice uuid invoice updatedProfiles =
     (case findIndex (sameVendor (vendorName invoice)) updatedProfiles of
        Some newProfileIndex \<Rightarrow>
          (updatedProfiles[newProfileIndex :=
             (updatedProfiles ! newProfileIndex)
               \<lparr>totalSpent :=
                  totalSpent (updatedProfiles ! newProfileIndex) + inv_total invoice,
                invoiceCount := invoiceCount (updatedProfiles ! newProfileIndex) + 1,
                lastInvoiceDate := date invoice\<rparr>],
           profile_id (updatedProfiles ! newProfileIndex))
      | None \<Rightarrow>
          (updatedProfiles @
             [\<lparr>profile_id = uuid, name = vendorName invoice,
               totalSpent = inv_total invoice, invoiceCount = 1,
               lastInvoiceDate = date invoice\<rparr>],
           uuid))"

text \<open>App.tsx 162: the sweep.\<close>

definition sweep :: "Invoice \<Rightarrow> CustomerProfile list \<Rightarrow> CustomerProfile list" where
  "sweep invoice updatedProfiles =
     filter (\<lambda>p. invoiceCount p > 0 \<or> sameVendor (vendorName invoice) p) updatedProfiles"

text \<open>
  App.tsx 124-174. \<open>uuid\<close> is what \<^verbatim>\<open>crypto.randomUUID()\<close> returns if the handler calls
  it, \<open>now\<close> is \<^verbatim>\<open>new Date().toISOString()\<close>.
\<close>

definition handleSaveInvoice :: "string \<Rightarrow> string \<Rightarrow> Invoice \<Rightarrow> AppState \<Rightarrow> AppState" where
  "handleSaveInvoice uuid now invoice s =
     (let prevInvoices = invoices s;
          existingInvoice = find (\<lambda>iv. invoice_id iv = invoice_id invoice) prevInvoices;
          undone = (case existingInvoice of
                      None \<Rightarrow> profiles s
                    | Some e \<Rightarrow> undoExisting e (profiles s));
          applied = applyInvoice uuid invoice undone;
          finalProfileId = snd applied;
          invoiceWithProfile = invoice\<lparr>profileId := Some finalProfileId, updatedAt := now\<rparr>
      in s\<lparr>invoices :=
             (case existingInvoice of
                Some e \<Rightarrow>
                  map (\<lambda>iv. if invoice_id iv = invoice_id invoice
                             then invoiceWithProfile else iv) prevInvoices
              | None \<Rightarrow> invoiceWithProfile # prevInvoices),
           profiles := sweep invoice (fst applied),
           view := DASHBOARD,
           scannedData := None\<rparr>)"

subsection \<open>The derived status\<close>

text \<open>
  formatters.ts 21-27. \<open>dueBeforeToday\<close> is the outcome of the comparison of the due
  date with the start of the current day.
\<close>

definition getDerivedStatus :: "bool \<Rightarrow> InvoiceStatus \<Rightarrow> DerivedStatus" where
  "getDerivedStatus dueBeforeToday currentStatus =
     (if currentStatus = PAID then D_PAID
      else if dueBeforeToday then D_OVERDUE else D_UNPAID)"

subsection \<open>Bulk operations\<close>

text \<open>
  App.tsx 176-181. \<open>confirmed\<close> is the answer of the browser's \<^verbatim>\<open>confirm\<close> dialog.
\<close>

definition handleBulkDelete :: "bool \<Rightarrow> string list \<Rightarrow> AppState \<Rightarrow> AppState" where
  "handleBulkDelete confirmed ids s =
     (if confirmed
      then s\<lparr>invoices := filter (\<lambda>iv. invoice_id iv \<notin> set ids) (invoices s),
             notification := Some (Deleted (length ids), success)\<rparr>
      else s)"

text \<open>
  App.tsx 183-186. The time stamp is taken anew for every invoice that is marked:
  \<open>now k\<close> is the one for the invoice at position \<open>k\<close> of the collection.
\<close>

definition handleBulkMarkPaid :: "(nat \<Rightarrow> string) \<Rightarrow> string list \<Rightarrow> AppState \<Rightarrow> AppState" where
  "handleBulkMarkPaid now ids s =
     s\<lparr>invoices :=
         map (\<lambda>(k, iv). if invoice_id iv \<in> set ids
                         then iv\<lparr>status := PAID, updatedAt := now k\<rparr> else iv)
           (enumerate 0 (invoices s)),
       notification := Some (MarkedPaid (length ids), success)\<rparr>"

subsection \<open>The extraction service: \<^verbatim>\<open>extractInvoiceData\<close>\<close>

text \<open>
  What \<^verbatim>\<open>JSON.parse\<close> yields for a response that follows the schema of the request:
  every property may be missing.
\<close>

record ExtractedItem =
  x_description :: "string option"
  x_quantity :: "rat option"
  x_rate :: "rat option"

record Extracted =
  x_vendorName :: "string option"
  x_date :: "string option"
  x_dueDate :: "string option"
  x_currency :: "string option"
  x_category :: "string option"
  x_tags :: "string list option"
  x_items :: "ExtractedItem list option"

text \<open>
  The outcome of the call to the model: the request itself is rejected with a message,
  the response has no text, the text is not the JSON of an object, or it parses.
\<close>

datatype Response =
    CallRejected string
  | NoText
  | NotJson
  | Parsed Extracted

text \<open>\<^verbatim>\<open>!x\<close> for a string that may be missing.\<close>

definition falsy :: "string option \<Rightarrow> bool" where
  "falsy x \<longleftrightarrow> (case x of None \<Rightarrow> True | Some v \<Rightarrow> v = [])"

text \<open>\<^verbatim>\<open>x || d\<close> for a string that may be missing.\<close>

definition orElse :: "string option \<Rightarrow> string \<Rightarrow> string" where
  "orElse x d = (case x of None \<Rightarrow> d | Some v \<Rightarrow> if v = [] then d else v)"

text \<open>
  part\_000 60-76. The error raised for a missing vendor name is raised inside the
  \<^verbatim>\<open>try\<close> block, so the \<^verbatim>\<open>catch\<close> replaces it by the "Analysis failed" error.
\<close>

definition extractInvoiceData :: "Response \<Rightarrow> Message + Extracted" where
  "extractInvoiceData response =
     (case response of
        CallRejected msg \<Rightarrow> Inl (ServiceError msg)
      | NoText \<Rightarrow> Inl OcrNoContent
      | NotJson \<Rightarrow> Inl AnalysisFailed
      | Parsed parsed \<Rightarrow>
          if falsy (x_vendorName parsed) \<or> x_vendorName parsed = Some []
          then Inl AnalysisFailed
          else Inr parsed)"

subsection \<open>The validator and the capture handler of \<^verbatim>\<open>App.tsx\<close>\<close>

text \<open>App.tsx 68-74.\<close>

definition validateInvoice :: "Draft \<Rightarrow> bool" where
  "validateInvoice data =
     (if falsy (d_vendorName data) \<or> map_option trim (d_vendorName data) = Some [] then False
      else if falsy (d_date data) \<or> falsy (d_dueDate data) then False
      else (case d_items data of
              None \<Rightarrow> False
            | Some its \<Rightarrow>
                if length its = 0 then False
                else list_all (\<lambda>it. description it \<noteq> [] \<and> quantity it > 0 \<and> rate it \<ge> 0) its))"

text \<open>
  The \<^verbatim>\<open>reduce\<close> of App.tsx 87, which is also \<^verbatim>\<open>calculateTotal\<close> of InvoiceForm.tsx 72-74.
\<close>

definition calculateTotal :: "InvoiceItem list \<Rightarrow> rat" where
  "calculateTotal its = foldl (\<lambda>sum item. sum + quantity item * rate item) 0 its"

text \<open>App.tsx 80-85; \<open>ids k\<close> is the result of the \<open>k\<close>-th call of \<^verbatim>\<open>crypto.randomUUID()\<close>.\<close>

definition formatItem :: "string \<Rightarrow> ExtractedItem \<Rightarrow> InvoiceItem" where
  "formatItem uuid it =
     \<lparr>item_id = uuid,
      description = orElse (x_description it) ''Item'',
      quantity = (case x_quantity it of None \<Rightarrow> 1 | Some q \<Rightarrow> if q = 0 then 1 else q),
      rate = (case x_rate it of None \<Rightarrow> 0 | Some r \<Rightarrow> if r = 0 then 0 else r)\<rparr>"

definition formatItems :: "(nat \<Rightarrow> string) \<Rightarrow> ExtractedItem list \<Rightarrow> InvoiceItem list" where
  "formatItems ids its = map (\<lambda>(k, it). formatItem (ids k) it) (enumerate 0 its)"

text \<open>App.tsx 89-101.\<close>

definition invoiceTemplate :: "(nat \<Rightarrow> string) \<Rightarrow> string \<Rightarrow> string \<Rightarrow> Extracted \<Rightarrow> ExtractedItem list \<Rightarrow> Draft" where
  "invoiceTemplate ids now preferredCurrency data its =
     (let formattedItems = formatItems ids its;
          total = calculateTotal formattedItems
      in \<lparr>d_id = None,
          d_vendorName = x_vendorName data,
          d_profileId = None,
          d_date = x_date data,
          d_dueDate = x_dueDate data,
          d_items = Some formattedItems,
          d_total = Some total,
          d_category = Some (orElse (x_category data) ''General''),
          d_tags = Some (case x_tags data of None \<Rightarrow> [] | Some ts \<Rightarrow> ts),
          d_type = Some expense,
          d_currency = Some (orElse (x_currency data) preferredCurrency),
          d_status = Some UNPAID,
          d_updatedAt = Some now\<rparr>)"

text \<open>
  \<^verbatim>\<open>{...invoiceTemplate, id} as Invoice\<close> (App.tsx 105-108). The cast checks nothing; the
  result is an \<^verbatim>\<open>Invoice\<close> when the properties its type requires are there, which
  \<open>validateInvoice\<close> and the template guarantee (lemma \<open>asInvoice_template\<close>).
\<close>

definition asInvoice :: "string \<Rightarrow> Draft \<Rightarrow> Invoice option" where
  "asInvoice newId d =
     Option.bind (d_vendorName d) (\<lambda>v.
     Option.bind (d_date d) (\<lambda>dt.
     Option.bind (d_dueDate d) (\<lambda>due.
     Option.bind (d_items d) (\<lambda>its.
     Option.bind (d_total d) (\<lambda>tot.
     Option.bind (d_category d) (\<lambda>cat.
     Option.bind (d_tags d) (\<lambda>tgs.
     Option.bind (d_type d) (\<lambda>ty.
     Option.bind (d_currency d) (\<lambda>cur.
     Option.bind (d_status d) (\<lambda>st.
     Option.bind (d_updatedAt d) (\<lambda>upd.
       Some \<lparr>invoice_id = newId, vendorName = v, profileId = d_profileId d, date = dt,
             dueDate = due, items = its, inv_total = tot, category = cat, tags = tgs,
             inv_type = ty, currency = cur, status = st, updatedAt = upd\<rparr>)))))))))))"

text \<open>The \<^verbatim>\<open>catch\<close> of App.tsx 115-118: \<^verbatim>\<open>err.message || "OCR failed. ..."\<close>.\<close>

definition captureFailed :: "Message \<Rightarrow> string \<Rightarrow> AppState \<Rightarrow> AppState" where
  "captureFailed err preferredCurrency s =
     s\<lparr>notification := Some (if err = ServiceError [] then OcrFailed else err, error),
       scannedData := Some (emptyDraft\<lparr>d_status := Some UNPAID,
                                       d_currency := Some preferredCurrency\<rparr>),
       view := EDITING\<rparr>"

text \<open>
  App.tsx 76-122, from the point where the service has answered. \<open>ids\<close> are the
  results of the calls of \<^verbatim>\<open>crypto.randomUUID()\<close> in their order: one per item, then
  the invoice's, then the one \<open>handleSaveInvoice\<close> may ask for. \<open>now\<close> and \<open>saveTime\<close>
  are the two time stamps. A payload without an \<^verbatim>\<open>items\<close> array makes
  \<^verbatim>\<open>data.items.map\<close> throw, which the \<^verbatim>\<open>catch\<close> handles like a failed extraction.
\<close>

definition handleCapture ::
  "(nat \<Rightarrow> string) \<Rightarrow> string \<Rightarrow> string \<Rightarrow> string \<Rightarrow> Response \<Rightarrow> AppState \<Rightarrow> AppState" where
  "handleCapture ids now saveTime preferredCurrency response s =
     (case extractInvoiceData response of
        Inl err \<Rightarrow> captureFailed err preferredCurrency s
      | Inr data \<Rightarrow>
          (case x_items data of
             None \<Rightarrow> captureFailed ItemsNotIterable preferredCurrency s
           | Some its \<Rightarrow>
               let template = invoiceTemplate ids now preferredCurrency data its in
               if validateInvoice template
               then (case asInvoice (ids (length its)) template of
                       None \<Rightarrow> s
                     | Some invoice \<Rightarrow>
                         (handleSaveInvoice (ids (Suc (length its))) saveTime invoice s)
                           \<lparr>notification := Some (AutoSaved, success), view := DASHBOARD\<rparr>)
               else s\<lparr>scannedData := Some template, view := EDITING\<rparr>))"

subsection \<open>The editing form: \<^verbatim>\<open>InvoiceForm.tsx\<close>\<close>

text \<open>The state hooks of the component (InvoiceForm.tsx 15-25).\<close>

record FormState =
  f_vendorName :: string
  f_date :: string
  f_dueDate :: string
  f_currency :: string
  f_status :: InvoiceStatus
  f_category :: string
  f_tags :: "string list"
  f_items :: "InvoiceItem list"

text \<open>
  What the initialisers of the hooks read from the environment when the form is mounted:
  a UUID for the blank first item and the two default dates.
\<close>

record MountEnv =
  blankItemId :: string
  today :: string
  inThirtyDays :: string

definition blankItem :: "string \<Rightarrow> InvoiceItem" where
  "blankItem uuid = \<lparr>item_id = uuid, description = [], quantity = 1, rate = 0\<rparr>"

text \<open>InvoiceForm.tsx 15-25: the initial values, from \<^verbatim>\<open>initialData\<close>.\<close>

definition mountForm :: "MountEnv \<Rightarrow> Draft option \<Rightarrow> FormState" where
  "mountForm env initialData =
     \<lparr>f_vendorName = orElse (Option.bind initialData d_vendorName) [],
      f_date = orElse (Option.bind initialData d_date) (today env),
      f_dueDate = orElse (Option.bind initialData d_dueDate) (inThirtyDays env),
      f_currency = orElse (Option.bind initialData d_currency) ''INR'',
      f_status = (case Option.bind initialData d_status of None \<Rightarrow> UNPAID | Some st \<Rightarrow> st),
      f_category = orElse (Option.bind initialData d_category) ''General'',
      f_tags = (case Option.bind initialData d_tags of None \<Rightarrow> [] | Some ts \<Rightarrow> ts),
      f_items = (case Option.bind initialData d_items of
                   None \<Rightarrow> [blankItem (blankItemId env)]
                 | Some its \<Rightarrow> its)\<rparr>"

text \<open>InvoiceForm.tsx 28-33: the effect that runs when \<^verbatim>\<open>initialData\<close> changes.\<close>

definition initialDataEffect :: "Draft option \<Rightarrow> FormState \<Rightarrow> FormState" where
  "initialDataEffect initialData f =
     f\<lparr>f_items := (case Option.bind initialData d_items of
                     None \<Rightarrow> f_items f
                   | Some its \<Rightarrow> its),
       f_vendorName := orElse (Option.bind initialData d_vendorName) (f_vendorName f),
       f_tags := (case Option.bind initialData d_tags of None \<Rightarrow> f_tags f | Some ts \<Rightarrow> ts),
       f_category := orElse (Option.bind initialData d_category) (f_category f)\<rparr>"

text \<open>InvoiceForm.tsx 39-70: the edits the form offers.\<close>

datatype ItemField = Description string | Quantity rat | Rate rat

definition addItem :: "string \<Rightarrow> FormState \<Rightarrow> FormState" where
  "addItem uuid f = f\<lparr>f_items := f_items f @ [blankItem uuid]\<rparr>"

definition addTag :: "string \<Rightarrow> FormState \<Rightarrow> FormState" where
  "addTag newTag f =
     (if trim newTag \<noteq> [] \<and> trim newTag \<notin> set (f_tags f)
      then f\<lparr>f_tags := f_tags f @ [trim newTag]\<rparr>
      else f)"

definition removeTag :: "string \<Rightarrow> FormState \<Rightarrow> FormState" where
  "removeTag tagToRemove f = f\<lparr>f_tags := filter (\<lambda>t. t \<noteq> tagToRemove) (f_tags f)\<rparr>"

definition updateItem :: "string \<Rightarrow> ItemField \<Rightarrow> FormState \<Rightarrow> FormState" where
  "updateItem i field f =
     f\<lparr>f_items :=
         map (\<lambda>item. if item_id item = i
                     then (case field of
                             Description v \<Rightarrow> item\<lparr>description := v\<rparr>
                           | Quantity v \<Rightarrow> item\<lparr>quantity := v\<rparr>
                           | Rate v \<Rightarrow> item\<lparr>rate := v\<rparr>)
                     else item) (f_items f)\<rparr>"

definition removeItem :: "string \<Rightarrow> FormState \<Rightarrow> FormState" where
  "removeItem i f =
     (if length (f_items f) > 1
      then f\<lparr>f_items := filter (\<lambda>item. item_id item \<noteq> i) (f_items f)\<rparr>
      else f)"

text \<open>InvoiceForm.tsx 76-89.\<close>

definition validate :: "FormState \<Rightarrow> bool" where
  "validate f \<longleftrightarrow>
     trim (f_vendorName f) \<noteq> [] \<and> f_date f \<noteq> [] \<and> f_dueDate f \<noteq> [] \<and>
     \<not> list_ex (\<lambda>item. trim (description item) = [] \<or> quantity item \<le> 0 \<or> rate item < 0)
         (f_items f)"

text \<open>InvoiceForm.tsx 93-106: the invoice the form hands to \<^verbatim>\<open>onSave\<close>.\<close>

definition formInvoice :: "string \<Rightarrow> string \<Rightarrow> Draft option \<Rightarrow> FormState \<Rightarrow> Invoice" where
  "formInvoice uuid now initialData f =
     \<lparr>invoice_id = orElse (Option.bind initialData d_id) uuid,
      vendorName = trim (f_vendorName f),
      profileId = None,
      date = f_date f,
      dueDate = f_dueDate f,
      items = f_items f,
      inv_total = calculateTotal (f_items f),
      category = f_category f,
      tags = f_tags f,
      inv_type = expense,
      currency = f_currency f,
      status = f_status f,
      updatedAt = now\<rparr>"

text \<open>
  InvoiceForm.tsx 91-108, with \<^verbatim>\<open>onSave\<close> bound to \<open>handleSaveInvoice\<close> and
  \<^verbatim>\<open>initialData\<close> to \<^verbatim>\<open>scannedData\<close> (App.tsx 224-227).
\<close>

definition handleSave ::
  "string \<Rightarrow> string \<Rightarrow> string \<Rightarrow> string \<Rightarrow> FormState \<Rightarrow> AppState \<Rightarrow> AppState" where
  "handleSave uuid now saveUuid saveTime f s =
     (if \<not> validate f then s
      else handleSaveInvoice saveUuid saveTime (formInvoice uuid now (scannedData s) f) s)"

text \<open>App.tsx 188-191.\<close>

definition handleEditInvoice :: "Invoice \<Rightarrow> AppState \<Rightarrow> AppState" where
  "handleEditInvoice invoice s =
     s\<lparr>scannedData := Some (draftOfInvoice invoice), view := EDITING\<rparr>"

subsection \<open>The application as a transition system\<close>

text \<open>
  \<^verbatim>\<open>renderView\<close> (App.tsx 193-238) decides which handlers the user can reach: the
  dashboard offers the scanner, manual entry, editing of a listed invoice and the two
  bulk operations; the scanner offers cancelling; the form, mounted exactly while the
  view is \<^verbatim>\<open>EDITING\<close>, offers its edits, saving and cancelling. The extraction
  service answers asynchronously, so its answer may arrive in any view.
  A step is \<open>None\<close> when the view does not offer the action, or when a UUID drawn for
  a new invoice is already the id of a stored one (\<^verbatim>\<open>crypto.randomUUID()\<close> is taken
  to return fresh ids). Loading the page again starts from the initial state with the
  two collections as local storage holds them (App.tsx 34-44).
\<close>

record World =
  app :: AppState
  form :: "FormState option"

datatype Action =
    OpenScanner
  | OpenManual string MountEnv
  | EditInvoice Invoice MountEnv
  | BulkDelete bool "string list"
  | BulkMarkPaid "nat \<Rightarrow> string" "string list"
  | CancelScanner
  | CaptureDone "nat \<Rightarrow> string" string string string Response MountEnv
  | SetVendorName string
  | SetDate string
  | SetDueDate string
  | AddTag string
  | RemoveTag string
  | AddItem string
  | UpdateItem string ItemField
  | RemoveItem string
  | FormSave string string string string
  | FormCancel
  | Reload

definition initialWorld :: World where
  "initialWorld = \<lparr>app = initialState, form = None\<rparr>"

definition storedIds :: "AppState \<Rightarrow> string set" where
  "storedIds s = set (map invoice_id (invoices s))"

text \<open>The UUID \<open>handleCapture\<close> gives the invoice it saves.\<close>

definition captureInvoiceId :: "(nat \<Rightarrow> string) \<Rightarrow> Response \<Rightarrow> string" where
  "captureInvoiceId ids response =
     (case response of
        Parsed data \<Rightarrow> (case x_items data of None \<Rightarrow> ids 0 | Some its \<Rightarrow> ids (length its))
      | _ \<Rightarrow> ids 0)"

definition editForm :: "(FormState \<Rightarrow> FormState) \<Rightarrow> World \<Rightarrow> World option" where
  "editForm g w =
     (case form w of
        None \<Rightarrow> None
      | Some f \<Rightarrow> if view (app w) = EDITING then Some (w\<lparr>form := Some (g f)\<rparr>) else None)"

fun step :: "World \<Rightarrow> Action \<Rightarrow> World option" where
  "step w OpenScanner =
     (if view (app w) = DASHBOARD
      then Some \<lparr>app = (app w)\<lparr>view := SCANNING\<rparr>, form = None\<rparr>
      else None)"
| "step w (OpenManual preferredCurrency env) =
     (if view (app w) = DASHBOARD
      then (let s' = (app w)\<lparr>scannedData := Some (emptyDraft\<lparr>d_currency := Some preferredCurrency\<rparr>),
                              view := EDITING\<rparr>
            in Some \<lparr>app = s', form = Some (mountForm env (scannedData s'))\<rparr>)
      else None)"
| "step w (EditInvoice invoice env) =
     (if view (app w) = DASHBOARD \<and> invoice \<in> set (invoices (app w))
      then (let s' = handleEditInvoice invoice (app w)
            in Some \<lparr>app = s', form = Some (mountForm env (scannedData s'))\<rparr>)
      else None)"
| "step w (BulkDelete confirmed ids) =
     (if view (app w) = DASHBOARD
      then Some \<lparr>app = handleBulkDelete confirmed ids (app w), form = None\<rparr>
      else None)"
| "step w (BulkMarkPaid now ids) =
     (if view (app w) = DASHBOARD
      then Some \<lparr>app = handleBulkMarkPaid now ids (app w), form = None\<rparr>
      else None)"
| "step w CancelScanner =
     (if view (app w) = SCANNING
      then Some \<lparr>app = (app w)\<lparr>view := DASHBOARD\<rparr>, form = None\<rparr>
      else None)"
| "step w (CaptureDone ids now saveTime preferredCurrency response env) =
     (if captureInvoiceId ids response \<in> storedIds (app w) then None
      else (let s' = handleCapture ids now saveTime preferredCurrency response (app w)
            in Some \<lparr>app = s',
                     form = (if view s' = EDITING
                             then (case form w of
                                     None \<Rightarrow> Some (mountForm env (scannedData s'))
                                   | Some f \<Rightarrow> Some (initialDataEffect (scannedData s') f))
                             else None)\<rparr>))"
| "step w (SetVendorName v) = editForm (\<lambda>f. f\<lparr>f_vendorName := v\<rparr>) w"
| "step w (SetDate v) = editForm (\<lambda>f. f\<lparr>f_date := v\<rparr>) w"
| "step w (SetDueDate v) = editForm (\<lambda>f. f\<lparr>f_dueDate := v\<rparr>) w"
| "step w (AddTag newTag) = editForm (addTag newTag) w"
| "step w (RemoveTag tagToRemove) = editForm (removeTag tagToRemove) w"
| "step w (AddItem uuid) = editForm (addItem uuid) w"
| "step w (UpdateItem i field) = editForm (updateItem i field) w"
| "step w (RemoveItem i) = editForm (removeItem i) w"
| "step w (FormSave uuid now saveUuid saveTime) =
     (case form w of
        None \<Rightarrow> None
      | Some f \<Rightarrow>
          if view (app w) \<noteq> EDITING \<or>
             (falsy (Option.bind (scannedData (app w)) d_id) \<and> uuid \<in> storedIds (app w))
          then None
          else (let s' = handleSave uuid now saveUuid saveTime f (app w)
                in Some \<lparr>app = s', form = (if view s' = EDITING then Some f else None)\<rparr>))"
| "step w FormCancel =
     (if view (app w) = EDITING
      then Some \<lparr>app = (app w)\<lparr>view := DASHBOARD, scannedData := None\<rparr>, form = None\<rparr>
      else None)"
| "step w Reload =
     Some \<lparr>app = initialState\<lparr>invoices := invoices (app w), profiles := profiles (app w)\<rparr>,
           form = None\<rparr>"

fun run :: "World \<Rightarrow> Action list \<Rightarrow> World option" where
  "run w [] = Some w"
| "run w (a # as) = (case step w a of None \<Rightarrow> None | Some w' \<Rightarrow> run w' as)"

subsection \<open>Notions used to state and prove the properties\<close>

text \<open>
  None of the following is code of the application. \<open>mapFirst\<close> changes the first
  element that satisfies a test, which is what \<^verbatim>\<open>findIndex\<close> followed by an assignment
  at that index does; \<open>undoProfile\<close>, \<open>countProfile\<close> and \<open>newProfile\<close> name the three
  profile records \<open>handleSaveInvoice\<close> builds; \<open>reconcile\<close> is its effect on the
  profile collection, given the stored version of the invoice if there is one.
\<close>

fun mapFirst :: "('a \<Rightarrow> bool) \<Rightarrow> ('a \<Rightarrow> 'a) \<Rightarrow> 'a list \<Rightarrow> 'a list" where
  "mapFirst P f [] = []"
| "mapFirst P f (x # xs) = (if P x then f x # xs else x # mapFirst P f xs)"

definition undoProfile :: "Invoice \<Rightarrow> CustomerProfile \<Rightarrow> CustomerProfile" where
  "undoProfile e p =
     p\<lparr>totalSpent := max 0 (totalSpent p - inv_total e),
       invoiceCount := max 0 (invoiceCount p - 1)\<rparr>"

definition countProfile :: "Invoice \<Rightarrow> CustomerProfile \<Rightarrow> CustomerProfile" where
  "countProfile i p =
     p\<lparr>totalSpent := totalSpent p + inv_total i,
       invoiceCount := invoiceCount p + 1,
       lastInvoiceDate := date i\<rparr>"

definition newProfile :: "string \<Rightarrow> Invoice \<Rightarrow> CustomerProfile" where
  "newProfile uuid i =
     \<lparr>profile_id = uuid, name = vendorName i, totalSpent = inv_total i,
      invoiceCount = 1, lastInvoiceDate = date i\<rparr>"

definition reconcile ::
  "string \<Rightarrow> Invoice \<Rightarrow> Invoice option \<Rightarrow> CustomerProfile list \<Rightarrow> CustomerProfile list" where
  "reconcile uuid i previous ps =
     sweep i (fst (applyInvoice uuid i
                     (case previous of None \<Rightarrow> ps | Some e \<Rightarrow> undoExisting e ps)))"

definition nonNegative :: "CustomerProfile \<Rightarrow> bool" where
  "nonNegative p \<longleftrightarrow> 0 \<le> invoiceCount p \<and> 0 \<le> totalSpent p"

text \<open>
  The profile id a save assigns, in the words of the specification: the id of the
  profile that matches the vendor name if there is one, a fresh id otherwise.
\<close>

definition assignedProfileId :: "string \<Rightarrow> Invoice \<Rightarrow> AppState \<Rightarrow> string" where
  "assignedProfileId uuid invoice s =
     (case find (sameVendor (vendorName invoice)) (profiles s) of
        None \<Rightarrow> uuid
      | Some p \<Rightarrow> profile_id p)"

text \<open>The invariant of the specification: the cached total is the sum over the items.\<close>

definition totalMatchesItems :: "Invoice \<Rightarrow> bool" where
  "totalMatchesItems iv \<longleftrightarrow> inv_total iv = (\<Sum>item\<leftarrow>items iv. quantity item * rate item)"

text \<open>
  The invariant of the transition system: stored invoices have distinct ids, the form
  is mounted exactly in the editing view, and when the draft being edited carries an
  id, the status the form holds is the status of the stored invoice of that id.
\<close>

definition distinctIds :: "AppState \<Rightarrow> bool" where
  "distinctIds s \<longleftrightarrow> distinct (map invoice_id (invoices s))"

definition editedId :: "AppState \<Rightarrow> string option" where
  "editedId s = Option.bind (scannedData s) d_id"

definition worldInvariant :: "World \<Rightarrow> bool" where
  "worldInvariant w \<longleftrightarrow>
     distinctIds (app w) \<and>
     (form w \<noteq> None \<longleftrightarrow> view (app w) = EDITING) \<and>
     (falsy (editedId (app w)) \<or>
      (\<exists>f. form w = Some f \<and>
           (\<forall>iv\<in>set (invoices (app w)).
              Some (invoice_id iv) = editedId (app w) \<longrightarrow> status iv = f_status f)))"

text \<open>No invoice stored as paid in \<open>s\<close> is stored under the same id as unpaid in \<open>s'\<close>.\<close>

definition keepsPaid :: "AppState \<Rightarrow> AppState \<Rightarrow> bool" where
  "keepsPaid s s' \<longleftrightarrow>
     (\<forall>iv\<in>set (invoices s). status iv = PAID \<longrightarrow>
        (\<forall>iv'\<in>set (invoices s'). invoice_id iv' = invoice_id iv \<longrightarrow> status iv' = PAID))"

subsection \<open>Sample data\<close>

definition widget :: InvoiceItem where
  "widget = \<lparr>item_id = ''item-1'', description = ''Widget'', quantity = 2, rate = 50\<rparr>"

definition acmeInvoice :: Invoice where
  "acmeInvoice =
     \<lparr>invoice_id = ''inv-A'', vendorName = ''Acme'', profileId = Some ''prof-1'',
      date = ''2024-01-01'', dueDate = ''2024-01-31'', items = [widget], inv_total = 100,
      category = ''General'', tags = [], inv_type = expense, currency = ''USD'',
      status = UNPAID, updatedAt = ''t0''\<rparr>"

definition acmeProfile :: CustomerProfile where
  "acmeProfile =
     \<lparr>profile_id = ''prof-1'', name = ''Acme'', totalSpent = 100, invoiceCount = 1,
      lastInvoiceDate = ''2024-01-01''\<rparr>"

definition acmeState :: AppState where
  "acmeState =
     \<lparr>invoices = [acmeInvoice], profiles = [acmeProfile], view = DASHBOARD,
      scannedData = None, notification = None\<rparr>"

text \<open>The same invoice, edited to another vendor and another amount.\<close>

definition betaInvoice :: Invoice where
  "betaInvoice =
     acmeInvoice\<lparr>vendorName := ''Beta'', inv_total := 150,
                 items := [widget\<lparr>quantity := 3\<rparr>], profileId := None\<rparr>"

text \<open>An answer of the extraction service whose vendor name ends in a blank.\<close>

definition paperItem :: ExtractedItem where
  "paperItem = \<lparr>x_description = Some ''Paper'', x_quantity = Some 1, x_rate = Some 50\<rparr>"

definition acmeTrailingBlank :: Extracted where
  "acmeTrailingBlank =
     \<lparr>x_vendorName = Some ''Acme '', x_date = Some ''2024-02-01'',
      x_dueDate = Some ''2024-03-02'', x_currency = Some ''USD'',
      x_category = Some ''Office Supplies'', x_tags = Some [''paper''],
      x_items = Some [paperItem]\<rparr>"

text \<open>The same answer with the name as it should be and a line item described by blanks.\<close>

definition blankDescription :: Extracted where
  "blankDescription =
     acmeTrailingBlank\<lparr>x_vendorName := Some ''Acme'',
                       x_items := Some [paperItem\<lparr>x_description := Some ''  ''\<rparr>]\<rparr>"

text \<open>An answer whose vendor name is made of blanks, and one whose currency is empty.\<close>

definition blankVendor :: Extracted where
  "blankVendor = acmeTrailingBlank\<lparr>x_vendorName := Some ''  ''\<rparr>"

definition emptyVendor :: Extracted where
  "emptyVendor = acmeTrailingBlank\<lparr>x_vendorName := Some []\<rparr>"

definition emptyCurrency :: Extracted where
  "emptyCurrency = acmeTrailingBlank\<lparr>x_vendorName := Some ''Acme'', x_currency := Some []\<rparr>"

definition sampleIds :: "nat \<Rightarrow> string" where
  "sampleIds k = (if k = 0 then ''item-9'' else if k = 1 then ''inv-B'' else ''prof-2'')"

definition sampleEnv :: MountEnv where
  "sampleEnv = \<lparr>blankItemId = ''item-0'', today = ''2024-02-01'', inThirtyDays = ''2024-03-02''\<rparr>"

text \<open>
  A session: an invoice is captured and saved automatically, marked as paid, opened in
  the form, and its vendor name is corrected there.
\<close>

definition paidInvoice :: Invoice where
  "paidInvoice =
     \<lparr>invoice_id = ''inv-B'', vendorName = ''Acme '', profileId = Some ''prof-2'',
      date = ''2024-02-01'', dueDate = ''2024-03-02'',
      items = [\<lparr>item_id = ''item-9'', description = ''Paper'', quantity = 1, rate = 50\<rparr>],
      inv_total = 50, category = ''Office Supplies'', tags = [''paper''],
      inv_type = expense, currency = ''USD'', status = PAID, updatedAt = ''t3''\<rparr>"

definition sampleSession :: "Action list" where
  "sampleSession =
     [CaptureDone sampleIds ''t1'' ''t2'' ''INR'' (Parsed acmeTrailingBlank) sampleEnv,
      BulkMarkPaid (\<lambda>k. ''t3'') [''inv-B''],
      EditInvoice paidInvoice sampleEnv,
      SetVendorName ''Acme'']"

section \<open>Properties\<close>

subsection \<open>Evaluation of the definitions\<close>

lemmas string_simps =
  toLowerCase_def toLowerChar_def upperCaseLetters_def lowerCaseLetters_def trim_def
  isWhiteSpace_def

lemmas save_simps =
  handleSaveInvoice_def undoExisting_def applyInvoice_def sweep_def sameVendor_def Let_def

lemmas sample_simps =
  widget_def acmeInvoice_def acmeProfile_def acmeState_def betaInvoice_def

subsection \<open>Searching and changing the first match\<close>

lemma findIndex_None_iff: "findIndex P xs = None \<longleftrightarrow> (\<forall>x\<in>set xs. \<not> P x)"
  by (induction xs) auto

lemma find_None_iff_set: "find P xs = None \<longleftrightarrow> (\<forall>x\<in>set xs. \<not> P x)"
  by (induction xs) auto

lemma findIndex_update:
  "(case findIndex P xs of None \<Rightarrow> xs | Some i \<Rightarrow> xs[i := f (xs ! i)]) = mapFirst P f xs"
  by (induction xs) (auto split: option.splits)

lemma findIndex_find:
  "(case findIndex P xs of None \<Rightarrow> d | Some i \<Rightarrow> g (xs ! i)) =
   (case find P xs of None \<Rightarrow> d | Some x \<Rightarrow> g x)"
  by (induction xs) (auto split: option.splits)

lemma mapFirst_comp:
  "(\<And>x. P x \<Longrightarrow> P (f x)) \<Longrightarrow> mapFirst P g (mapFirst P f xs) = mapFirst P (g \<circ> f) xs"
  by (induction xs) auto

lemma mapFirst_cong_set:
  "(\<And>x. x \<in> set xs \<Longrightarrow> P x \<Longrightarrow> f x = g x) \<Longrightarrow> mapFirst P f xs = mapFirst P g xs"
  by (induction xs) auto

lemma mapFirst_append_none:
  "(\<forall>x\<in>set xs. \<not> P x) \<Longrightarrow> mapFirst P f (xs @ ys) = xs @ mapFirst P f ys"
  by (induction xs) auto

lemma filter_mapFirst:
  "(\<And>x. P x \<Longrightarrow> Q x \<and> Q (f x)) \<Longrightarrow>
   filter Q (mapFirst P f xs) = mapFirst P f (filter Q xs)"
  by (induction xs) auto

lemma set_mapFirst_prop:
  "\<forall>x\<in>set xs. Q x \<Longrightarrow> (\<And>x. Q x \<Longrightarrow> Q (f x)) \<Longrightarrow> \<forall>x\<in>set (mapFirst P f xs). Q x"
  by (induction xs) auto

lemma mapFirst_ex_iff:
  "(\<And>x. R (f x) = R x) \<Longrightarrow> (\<exists>x\<in>set (mapFirst P f xs). R x) = (\<exists>x\<in>set xs. R x)"
  by (induction xs) auto

lemma find_mapFirst:
  "(\<And>x. R (f x) = R x) \<Longrightarrow> (\<And>x. h (f x) = h x) \<Longrightarrow>
   map_option h (find R (mapFirst P f xs)) = map_option h (find R xs)"
  by (induction xs) auto

lemma case_option_map_cong:
  "map_option h a = map_option h b \<Longrightarrow>
   (case a of None \<Rightarrow> d | Some x \<Rightarrow> h x) = (case b of None \<Rightarrow> d | Some x \<Rightarrow> h x)"
  by (cases a; cases b) simp_all

lemma find_invoice_id_None:
  "find (\<lambda>iv. invoice_id iv = k) xs = None \<longleftrightarrow> k \<notin> set (map invoice_id xs)"
  by (induction xs) auto

lemma find_stored:
  "find (\<lambda>iv. invoice_id iv = k) (invoices s) = None \<longleftrightarrow> k \<notin> storedIds s"
  using find_invoice_id_None [of k "invoices s"] by (simp only: storedIds_def)

lemma findIndex_nth:
  "findIndex P xs = Some i \<Longrightarrow> i < length xs \<and> P (xs ! i)"
  by (induction xs arbitrary: i) (auto split: if_splits)

lemma find_map_replace:
  "P c \<Longrightarrow>
   find P (map (\<lambda>x. if P x then c else x) xs) = (if \<exists>x\<in>set xs. P x then Some c else None)"
  by (induction xs) auto

subsection \<open>The profile part of a save\<close>

lemma undoExisting_mapFirst:
  "undoExisting e ps = mapFirst (sameVendor (vendorName e)) (undoProfile e) ps"
  unfolding undoExisting_def undoProfile_def
  by (rule findIndex_update
      [where f = "\<lambda>p. p\<lparr>totalSpent := max 0 (totalSpent p - inv_total e),
                         invoiceCount := max 0 (invoiceCount p - 1)\<rparr>"])

lemma applyInvoice_fst:
  "fst (applyInvoice uuid i ps) =
     (if \<exists>p\<in>set ps. sameVendor (vendorName i) p
      then mapFirst (sameVendor (vendorName i)) (countProfile i) ps
      else ps @ [newProfile uuid i])"
proof (cases "findIndex (sameVendor (vendorName i)) ps")
  case None
  have nex: "\<not> (\<exists>p\<in>set ps. sameVendor (vendorName i) p)"
    using None findIndex_None_iff [where P = "sameVendor (vendorName i)" and xs = ps] by simp
  show ?thesis using nex
    by (simp add: applyInvoice_def newProfile_def None)
next
  case (Some k)
  then have ex: "\<exists>p\<in>set ps. sameVendor (vendorName i) p"
    using findIndex_None_iff [where P = "sameVendor (vendorName i)" and xs = ps] by auto
  have "ps[k := countProfile i (ps ! k)] =
        mapFirst (sameVendor (vendorName i)) (countProfile i) ps"
    using findIndex_update
      [where P = "sameVendor (vendorName i)" and xs = ps and f = "countProfile i"] Some
    by simp
  with Some ex show ?thesis
    by (simp add: applyInvoice_def countProfile_def)
qed

lemma applyInvoice_snd:
  "snd (applyInvoice uuid i ps) =
     (case find (sameVendor (vendorName i)) ps of None \<Rightarrow> uuid | Some p \<Rightarrow> profile_id p)"
proof -
  have "snd (applyInvoice uuid i ps) =
        (case findIndex (sameVendor (vendorName i)) ps of
           None \<Rightarrow> uuid | Some k \<Rightarrow> profile_id (ps ! k))"
    by (simp add: applyInvoice_def split: option.splits)
  then show ?thesis
    by (simp add: findIndex_find [where g = profile_id])
qed

lemma sameVendor_undoProfile [simp]: "sameVendor v (undoProfile e p) = sameVendor v p"
  by (simp add: sameVendor_def undoProfile_def)

lemma sameVendor_countProfile [simp]: "sameVendor v (countProfile i p) = sameVendor v p"
  by (simp add: sameVendor_def countProfile_def)

lemma sameVendor_newProfile [simp]: "sameVendor (vendorName i) (newProfile uuid i)"
  by (simp add: sameVendor_def newProfile_def)

lemma profile_id_undoProfile [simp]: "profile_id (undoProfile e p) = profile_id p"
  by (simp add: undoProfile_def)

lemma count_undo_count:
  "nonNegative p \<Longrightarrow> inv_total e = inv_total i \<Longrightarrow>
   countProfile i (undoProfile e (countProfile i p)) = countProfile i p"
  by (simp add: nonNegative_def undoProfile_def countProfile_def)

lemma count_undo_new:
  "inv_total e = inv_total i \<Longrightarrow>
   countProfile i (undoProfile e (newProfile u i)) = newProfile u i"
  by (simp add: undoProfile_def countProfile_def newProfile_def)

lemma profiles_save:
  "profiles (handleSaveInvoice uuid now i s) =
     reconcile uuid i (find (\<lambda>iv. invoice_id iv = invoice_id i) (invoices s)) (profiles s)"
  by (simp add: handleSaveInvoice_def reconcile_def Let_def)

text \<open>
  The profile collection after a save, step by step: the first profile that matches the
  vendor name of the stored version is decremented with floors at 0; then the first
  profile that matches the vendor name of the invoice is incremented and dated, or a
  new profile is appended; then the sweep runs. All matching is by \<open>sameVendor\<close>,
  that is, on the names as they are, folded to lower case.
\<close>

lemma save_profiles_step_by_step:
  "profiles (handleSaveInvoice uuid now i s) =
     (let undone = (case find (\<lambda>iv. invoice_id iv = invoice_id i) (invoices s) of
                      None \<Rightarrow> profiles s
                    | Some e \<Rightarrow> mapFirst (sameVendor (vendorName e)) (undoProfile e) (profiles s))
      in sweep i (if \<exists>p\<in>set undone. sameVendor (vendorName i) p
                  then mapFirst (sameVendor (vendorName i)) (countProfile i) undone
                  else undone @ [newProfile uuid i]))"
  by (simp add: profiles_save reconcile_def applyInvoice_fst undoExisting_mapFirst Let_def
      cong: option.case_cong)

lemma saved_profile_id:
  "snd (applyInvoice uuid i (case previous of None \<Rightarrow> profiles s
                                         | Some e \<Rightarrow> undoExisting e (profiles s))) =
   assignedProfileId uuid i s"
proof (cases previous)
  case None
  then show ?thesis by (simp add: applyInvoice_snd assignedProfileId_def)
next
  case (Some e)
  have "map_option profile_id
          (find (sameVendor (vendorName i))
             (mapFirst (sameVendor (vendorName e)) (undoProfile e) (profiles s))) =
        map_option profile_id (find (sameVendor (vendorName i)) (profiles s))"
    by (rule find_mapFirst) simp_all
  then have "(case find (sameVendor (vendorName i))
                (mapFirst (sameVendor (vendorName e)) (undoProfile e) (profiles s)) of
           None \<Rightarrow> uuid | Some p \<Rightarrow> profile_id p) =
        (case find (sameVendor (vendorName i)) (profiles s) of
           None \<Rightarrow> uuid | Some p \<Rightarrow> profile_id p)"
    by (rule case_option_map_cong)
  then show ?thesis
    using Some
    by (simp add: applyInvoice_snd assignedProfileId_def undoExisting_mapFirst)
qed

lemma invoices_save:
  "invoices (handleSaveInvoice uuid now i s) =
     (let stored = i\<lparr>profileId := Some (assignedProfileId uuid i s), updatedAt := now\<rparr>
      in if invoice_id i \<in> storedIds s
         then map (\<lambda>iv. if invoice_id iv = invoice_id i then stored else iv) (invoices s)
         else stored # invoices s)"
proof (cases "find (\<lambda>iv. invoice_id iv = invoice_id i) (invoices s)")
  case None
  then have "invoice_id i \<notin> storedIds s"
    by (simp only: find_stored [symmetric])
  with None show ?thesis
    using saved_profile_id [where previous = None]
    by (simp add: handleSaveInvoice_def Let_def)
next
  case (Some e)
  then have "invoice_id i \<in> storedIds s"
    by (metis find_stored option.distinct(1))
  with Some show ?thesis
    using saved_profile_id [where previous = "Some e"]
    by (simp add: handleSaveInvoice_def Let_def)
qed

lemma find_after_save:
  "find (\<lambda>iv. invoice_id iv = invoice_id i) (invoices (handleSaveInvoice uuid now i s)) =
     Some (i\<lparr>profileId := Some (assignedProfileId uuid i s), updatedAt := now\<rparr>)"
proof (cases "invoice_id i \<in> storedIds s")
  case True
  then have "\<exists>x\<in>set (invoices s). invoice_id x = invoice_id i"
    unfolding storedIds_def by force
  with True show ?thesis
    by (simp add: invoices_save Let_def
        find_map_replace [where P = "\<lambda>iv. invoice_id iv = invoice_id i"])
next
  case False
  then show ?thesis
    by (simp add: invoices_save Let_def)
qed

lemma redo_identity:
  assumes nn: "\<forall>p\<in>set ps. nonNegative p"
    and v: "vendorName e = vendorName i" and t: "inv_total e = inv_total i"
  shows "reconcile u2 i (Some e) (sweep i (fst (applyInvoice u1 i ps))) =
         sweep i (fst (applyInvoice u1 i ps))"
proof (cases "\<exists>p\<in>set ps. sameVendor (vendorName i) p")
  case True
  let ?P = "sameVendor (vendorName i)"
  let ?Q = "\<lambda>p. invoiceCount p > 0 \<or> sameVendor (vendorName i) p"
  have S: "sweep i (fst (applyInvoice u1 i ps)) = mapFirst ?P (countProfile i) (filter ?Q ps)"
    using True by (simp add: applyInvoice_fst sweep_def filter_mapFirst)
  have ex: "\<exists>p\<in>set (mapFirst ?P (countProfile i) (filter ?Q ps)). ?P p"
    using True by (subst mapFirst_ex_iff) auto
  have "reconcile u2 i (Some e) (mapFirst ?P (countProfile i) (filter ?Q ps)) =
        filter ?Q (mapFirst ?P (countProfile i \<circ> undoProfile e \<circ> countProfile i) (filter ?Q ps))"
    using ex
    by (simp add: reconcile_def undoExisting_mapFirst v applyInvoice_fst mapFirst_comp
          mapFirst_ex_iff sweep_def o_assoc)
  also have "mapFirst ?P (countProfile i \<circ> undoProfile e \<circ> countProfile i) (filter ?Q ps) =
             mapFirst ?P (countProfile i) (filter ?Q ps)"
    by (rule mapFirst_cong_set) (use nn t in \<open>simp add: count_undo_count\<close>)
  also have "filter ?Q (mapFirst ?P (countProfile i) (filter ?Q ps)) =
             mapFirst ?P (countProfile i) (filter ?Q ps)"
    by (simp add: filter_mapFirst)
  finally show ?thesis by (simp add: S)
next
  case False
  let ?P = "sameVendor (vendorName i)"
  let ?Q = "\<lambda>p. invoiceCount p > 0 \<or> sameVendor (vendorName i) p"
  have S: "sweep i (fst (applyInvoice u1 i ps)) = filter ?Q ps @ [newProfile u1 i]"
    using False by (simp add: applyInvoice_fst sweep_def)
  have no: "\<forall>x\<in>set (filter ?Q ps). \<not> ?P x" using False by auto
  have "reconcile u2 i (Some e) (filter ?Q ps @ [newProfile u1 i]) =
        filter ?Q ps @ [newProfile u1 i]"
    using no t
    by (simp add: reconcile_def undoExisting_mapFirst v applyInvoice_fst mapFirst_append_none
          sweep_def count_undo_new)
  then show ?thesis by (simp add: S)
qed

lemma undone_nonNegative:
  assumes "\<forall>p\<in>set ps. nonNegative p"
  shows "\<forall>p\<in>set (case previous of None \<Rightarrow> ps | Some e \<Rightarrow> undoExisting e ps). nonNegative p"
proof (cases previous)
  case None
  with assms show ?thesis by simp
next
  case (Some e)
  have "\<forall>p\<in>set (mapFirst (sameVendor (vendorName e)) (undoProfile e) ps). nonNegative p"
    by (rule set_mapFirst_prop) (use assms in \<open>simp_all add: nonNegative_def undoProfile_def\<close>)
  with Some show ?thesis by (simp add: undoExisting_mapFirst)
qed

subsection \<open>Saving the same invoice twice\<close>

text \<open>
  Claim C2. Saving an invoice and then saving the same, unchanged invoice again leaves
  the profile collection as the first save left it: the second save takes back what
  the first one counted and counts it again. The precondition that keeps the floors
  at 0 away is that no profile starts with a negative count or a negative total.
\<close>

theorem resave_unchanged_invoice_keeps_profiles:
  assumes "\<forall>p\<in>set (profiles s). 0 \<le> invoiceCount p \<and> 0 \<le> totalSpent p"
  shows "profiles (handleSaveInvoice uuid2 now2 invoice
                     (handleSaveInvoice uuid1 now1 invoice s)) =
         profiles (handleSaveInvoice uuid1 now1 invoice s)"
proof -
  let ?previous = "find (\<lambda>iv. invoice_id iv = invoice_id invoice) (invoices s)"
  let ?undone = "case ?previous of None \<Rightarrow> profiles s | Some e \<Rightarrow> undoExisting e (profiles s)"
  have "\<forall>p\<in>set (profiles s). nonNegative p"
    using assms by (simp add: nonNegative_def)
  then have nn: "\<forall>p\<in>set ?undone. nonNegative p"
    by (rule undone_nonNegative)
  have first: "profiles (handleSaveInvoice uuid1 now1 invoice s) =
               sweep invoice (fst (applyInvoice uuid1 invoice ?undone))"
    by (simp add: profiles_save reconcile_def)
  have "reconcile uuid2 invoice
          (Some (invoice\<lparr>profileId := Some (assignedProfileId uuid1 invoice s),
                         updatedAt := now1\<rparr>))
          (sweep invoice (fst (applyInvoice uuid1 invoice ?undone))) =
        sweep invoice (fst (applyInvoice uuid1 invoice ?undone))"
    by (rule redo_identity [OF nn]) simp_all
  then show ?thesis
    by (simp add: profiles_save [where s = "handleSaveInvoice uuid1 now1 invoice s"]
          find_after_save first)
qed

theorem resave_unchanged_invoice_keeps_profiles_witness:
  "list_all (\<lambda>p. 0 \<le> invoiceCount p \<and> 0 \<le> totalSpent p) (profiles acmeState) \<and>
   profiles (handleSaveInvoice ''u1'' ''t1'' betaInvoice acmeState) =
     [\<lparr>profile_id = ''u1'', name = ''Beta'', totalSpent = 150, invoiceCount = 1,
       lastInvoiceDate = ''2024-01-01''\<rparr>] \<and>
   profiles (handleSaveInvoice ''u2'' ''t2'' betaInvoice
               (handleSaveInvoice ''u1'' ''t1'' betaInvoice acmeState)) =
     [\<lparr>profile_id = ''u1'', name = ''Beta'', totalSpent = 150, invoiceCount = 1,
       lastInvoiceDate = ''2024-01-01''\<rparr>]"
proof -
  have pre: "\<forall>p\<in>set (profiles acmeState). 0 \<le> invoiceCount p \<and> 0 \<le> totalSpent p"
    by (simp add: sample_simps)
  have first: "profiles (handleSaveInvoice ''u1'' ''t1'' betaInvoice acmeState) =
     [\<lparr>profile_id = ''u1'', name = ''Beta'', totalSpent = 150, invoiceCount = 1,
       lastInvoiceDate = ''2024-01-01''\<rparr>]"
    by (simp add: save_simps sample_simps string_simps)
  show ?thesis
    using pre first
      resave_unchanged_invoice_keeps_profiles
        [OF pre, of "''u2''" "''t2''" betaInvoice "''u1''" "''t1''"]
    by (simp add: list_all_iff)
qed

subsection \<open>The sweep\<close>

text \<open>
  Claim C3. After a save, every profile that is left has a positive invoice count or
  carries, up to the case of its letters, the vendor name of the invoice just saved.
\<close>

theorem sweep_survivors:
  "\<forall>p\<in>set (profiles (handleSaveInvoice uuid now invoice s)).
      0 < invoiceCount p \<or> toLowerCase (name p) = toLowerCase (vendorName invoice)"
  by (simp add: profiles_save reconcile_def sweep_def sameVendor_def)

theorem sweep_survivors_witness:
  "profiles (handleSaveInvoice ''u2'' ''t2'' betaInvoice acmeState) \<noteq> [] \<and>
   acmeProfile \<notin> set (profiles (handleSaveInvoice ''u2'' ''t2'' betaInvoice acmeState)) \<and>
   list_all (\<lambda>p. 0 < invoiceCount p \<or> toLowerCase (name p) = toLowerCase ''Beta'')
     (profiles (handleSaveInvoice ''u2'' ''t2'' betaInvoice acmeState))"
proof -
  have v: "vendorName betaInvoice = ''Beta''"
    by (simp add: sample_simps)
  have "profiles (handleSaveInvoice ''u2'' ''t2'' betaInvoice acmeState) =
     [\<lparr>profile_id = ''u2'', name = ''Beta'', totalSpent = 150, invoiceCount = 1,
       lastInvoiceDate = ''2024-01-01''\<rparr>]"
    by (simp add: save_simps sample_simps string_simps)
  then have "profiles (handleSaveInvoice ''u2'' ''t2'' betaInvoice acmeState) \<noteq> [] \<and>
    acmeProfile \<notin> set (profiles (handleSaveInvoice ''u2'' ''t2'' betaInvoice acmeState))"
    by (simp add: acmeProfile_def)
  then show ?thesis
    using sweep_survivors [of "''u2''" "''t2''" betaInvoice acmeState] v
    by (simp add: list_all_iff)
qed

subsection \<open>Bulk delete\<close>

text \<open>
  Claim C4. Once the user has accepted the confirmation dialog, bulk delete leaves
  exactly the invoices whose id is not in the list, in their order, and it never
  touches the profile collection: no count and no total is taken back. When the user
  declines, nothing changes at all.
\<close>

theorem bulkDelete_removes_invoices_keeps_profiles:
  "invoices (handleBulkDelete True ids s) =
     filter (\<lambda>iv. invoice_id iv \<notin> set ids) (invoices s) \<and>
   profiles (handleBulkDelete confirmed ids s) = profiles s \<and>
   handleBulkDelete False ids s = s"
  by (simp add: handleBulkDelete_def)

subsection \<open>The stored record\<close>

text \<open>
  Claim C10. The record a save stores is its argument with \<open>profileId\<close> set to the id
  of the profile matched or created and \<open>updatedAt\<close> set to the time of the save, every
  other field as given; it replaces the stored invoice of the same id, or is put in
  front of the collection when there is none. What the caller passed as \<open>profileId\<close>
  and \<open>updatedAt\<close> has no influence on the resulting state, and the assigned id is the
  id of a profile of the resulting collection that matches the vendor name.
\<close>

theorem save_stores_argument_with_profileId_and_updatedAt:
  "invoices (handleSaveInvoice uuid now invoice s) =
     (let stored = invoice\<lparr>profileId := Some (assignedProfileId uuid invoice s),
                           updatedAt := now\<rparr>
      in if invoice_id invoice \<in> storedIds s
         then map (\<lambda>iv. if invoice_id iv = invoice_id invoice then stored else iv) (invoices s)
         else stored # invoices s) \<and>
   invoice\<lparr>profileId := Some (assignedProfileId uuid invoice s), updatedAt := now\<rparr>
     \<in> set (invoices (handleSaveInvoice uuid now invoice s)) \<and>
   handleSaveInvoice uuid now (invoice\<lparr>profileId := callerProfileId,
                                       updatedAt := callerUpdatedAt\<rparr>) s =
     handleSaveInvoice uuid now invoice s \<and>
   (\<exists>p\<in>set (profiles (handleSaveInvoice uuid now invoice s)).
      profile_id p = assignedProfileId uuid invoice s \<and> sameVendor (vendorName invoice) p)"
proof -
  let ?stored = "invoice\<lparr>profileId := Some (assignedProfileId uuid invoice s), updatedAt := now\<rparr>"
  have mem: "?stored \<in> set (invoices (handleSaveInvoice uuid now invoice s))"
    using find_after_save [of invoice uuid now s]
    by (metis find_Some_iff nth_mem)
  have indep: "handleSaveInvoice uuid now (invoice\<lparr>profileId := callerProfileId,
                                       updatedAt := callerUpdatedAt\<rparr>) s =
     handleSaveInvoice uuid now invoice s"
    by (simp add: handleSaveInvoice_def applyInvoice_def sweep_def Let_def
          cong: option.case_cong)
  let ?undone = "case find (\<lambda>iv. invoice_id iv = invoice_id invoice) (invoices s) of
                   None \<Rightarrow> profiles s | Some e \<Rightarrow> undoExisting e (profiles s)"
  have prof: "\<exists>p\<in>set (profiles (handleSaveInvoice uuid now invoice s)).
      profile_id p = assignedProfileId uuid invoice s \<and> sameVendor (vendorName invoice) p"
  proof -
    have pid: "snd (applyInvoice uuid invoice ?undone) = assignedProfileId uuid invoice s"
      by (rule saved_profile_id)
    have "\<exists>p\<in>set (fst (applyInvoice uuid invoice ?undone)).
            profile_id p = snd (applyInvoice uuid invoice ?undone) \<and>
            sameVendor (vendorName invoice) p"
    proof (cases "findIndex (sameVendor (vendorName invoice)) ?undone")
      case None
      then show ?thesis
        by (simp add: applyInvoice_def sameVendor_def)
    next
      case (Some k)
      have k: "k < length ?undone \<and> sameVendor (vendorName invoice) (?undone ! k)"
        using Some by (rule findIndex_nth)
      show ?thesis
        using Some k
        by (auto simp add: applyInvoice_def sameVendor_def set_update_memI
            intro!: bexI [where x = "(?undone ! k)\<lparr>totalSpent := totalSpent (?undone ! k) + inv_total invoice,
                invoiceCount := invoiceCount (?undone ! k) + 1, lastInvoiceDate := date invoice\<rparr>"])
    qed
    then show ?thesis
      by (auto simp add: profiles_save reconcile_def sweep_def pid)
  qed
  show ?thesis
    using invoices_save [of uuid now invoice s] mem indep prof by simp
qed

subsection \<open>Vendor names with surrounding white space\<close>

lemmas capture_simps =
  handleCapture_def extractInvoiceData_def captureFailed_def invoiceTemplate_def formatItems_def
  formatItem_def calculateTotal_def validateInvoice_def asInvoice_def falsy_def orElse_def
  emptyDraft_def

lemmas form_simps =
  handleSave_def validate_def formInvoice_def mountForm_def initialDataEffect_def blankItem_def

lemmas payload_simps =
  paperItem_def acmeTrailingBlank_def blankDescription_def blankVendor_def emptyVendor_def
  emptyCurrency_def sampleIds_def sampleEnv_def

text \<open>
  Claim C1. The claim has the profile found by the trimmed vendor name, and the form
  does trim the name before it saves (InvoiceForm.tsx 95, and 36 for the badge). The
  capture handler passes the extracted name as it is, and \<open>handleSaveInvoice\<close> compares
  without trimming: for the extracted name \<^verbatim>\<open>"Acme "\<close> the profile \<^verbatim>\<open>"Acme"\<close> is left alone
  and a second profile is created, where the same name saved through the form is
  counted on the profile \<^verbatim>\<open>"Acme"\<close>.
\<close>

theorem untrimmed_vendor_name_splits_profile:
  "profiles (handleCapture sampleIds ''t1'' ''t2'' ''INR'' (Parsed acmeTrailingBlank) acmeState) =
     [acmeProfile,
      \<lparr>profile_id = ''prof-2'', name = ''Acme '', totalSpent = 50, invoiceCount = 1,
        lastInvoiceDate = ''2024-02-01''\<rparr>] \<and>
   profiles (handleSave ''inv-B'' ''t1'' ''prof-2'' ''t2''
               ((mountForm sampleEnv None)
                  \<lparr>f_vendorName := ''Acme '',
                   f_items := [\<lparr>item_id = ''item-9'', description = ''Paper'',
                                quantity = 1, rate = 50\<rparr>]\<rparr>)
               acmeState) =
     [acmeProfile\<lparr>totalSpent := 150, invoiceCount := 2, lastInvoiceDate := ''2024-02-01''\<rparr>]"
  by (simp add: capture_simps form_simps payload_simps save_simps sample_simps string_simps)

subsection \<open>The validator\<close>

lemma validateInvoice_iff:
  "validateInvoice data \<longleftrightarrow>
     (\<exists>v dt due its.
        d_vendorName data = Some v \<and> trim v \<noteq> [] \<and>
        d_date data = Some dt \<and> dt \<noteq> [] \<and> d_dueDate data = Some due \<and> due \<noteq> [] \<and>
        d_items data = Some its \<and> its \<noteq> [] \<and>
        (\<forall>it\<in>set its. description it \<noteq> [] \<and> 0 < quantity it \<and> 0 \<le> rate it))"
proof -
  have t: "trim [] = []" by (simp add: trim_def)
  show ?thesis
    by (cases "d_vendorName data"; cases "d_date data"; cases "d_dueDate data";
        cases "d_items data")
      (auto simp add: validateInvoice_def falsy_def list_all_iff t)
qed

text \<open>
  Claim C6. The validator of the form rejects an item whose description is made of
  white space (\<^verbatim>\<open>!item.description.trim()\<close>); the validator that gates the automatic
  save tests \<^verbatim>\<open>it.description\<close> only, so it accepts such an item and the invoice is
  stored without review.
\<close>

theorem blank_description_passes_validateInvoice:
  "validateInvoice (invoiceTemplate sampleIds ''t1'' ''INR'' blankDescription
                      [paperItem\<lparr>x_description := Some ''  ''\<rparr>]) \<and>
   map (\<lambda>iv. map description (items iv))
     (invoices (handleCapture sampleIds ''t1'' ''t2'' ''INR'' (Parsed blankDescription) acmeState)) =
     [[''  ''], [''Widget'']] \<and>
   \<not> validate (mountForm sampleEnv
                 (Some (invoiceTemplate sampleIds ''t1'' ''INR'' blankDescription
                          [paperItem\<lparr>x_description := Some ''  ''\<rparr>])))"
  by (simp add: capture_simps form_simps payload_simps save_simps sample_simps string_simps)

subsection \<open>Extraction without a usable vendor name\<close>

lemma blank_vendor_invalid:
  "map_option trim (x_vendorName data) = Some [] \<Longrightarrow>
   \<not> validateInvoice (invoiceTemplate ids now pref data its)"
  by (simp add: validateInvoice_def invoiceTemplate_def Let_def)

text \<open>
  What does hold for such a payload. When the vendor name is missing or empty the
  extraction fails: the error is reported, the ledger is left as it is and the editing
  form opens on a draft that carries the status and the preferred currency only. When
  the name is made of white space the ledger is left as it is as well and the editing
  form opens, on a draft whose vendor name is missing or the extracted one.
\<close>

lemma missing_vendor_name_fails_extraction:
  assumes "falsy (x_vendorName data)"
  shows "extractInvoiceData (Parsed data) = Inl AnalysisFailed \<and>
         handleCapture ids now saveTime pref (Parsed data) s =
           s\<lparr>notification := Some (AnalysisFailed, error),
             scannedData := Some (emptyDraft\<lparr>d_status := Some UNPAID,
                                             d_currency := Some pref\<rparr>),
             view := EDITING\<rparr>"
  using assms
  by (simp add: handleCapture_def extractInvoiceData_def captureFailed_def emptyDraft_def)

lemma blank_vendor_name_keeps_ledger:
  assumes "map_option trim (x_vendorName data) = Some []"
  shows "invoices (handleCapture ids now saveTime pref (Parsed data) s) = invoices s \<and>
         profiles (handleCapture ids now saveTime pref (Parsed data) s) = profiles s \<and>
         view (handleCapture ids now saveTime pref (Parsed data) s) = EDITING \<and>
         (\<exists>d. scannedData (handleCapture ids now saveTime pref (Parsed data) s) = Some d \<and>
              (d_vendorName d = None \<or> d_vendorName d = x_vendorName data))"
proof (cases "extractInvoiceData (Parsed data)")
  case (Inl err)
  then show ?thesis
    by (simp add: handleCapture_def captureFailed_def emptyDraft_def)
next
  case (Inr parsed)
  then have ok: "extractInvoiceData (Parsed data) = Inr data"
    by (auto simp add: extractInvoiceData_def split: if_splits)
  show ?thesis
  proof (cases "x_items data")
    case None
    with ok show ?thesis
      by (simp add: handleCapture_def captureFailed_def emptyDraft_def)
  next
    case (Some its)
    have "\<not> validateInvoice (invoiceTemplate ids now pref data its)"
      using assms by (rule blank_vendor_invalid)
    with ok Some show ?thesis
      by (simp add: handleCapture_def Let_def invoiceTemplate_def)
  qed
qed

text \<open>
  Claim C7. The claim has the extraction fail, with an error that sends the user to
  manual entry, for a vendor name that is missing, empty or made of white space. The
  service function tests the name for being missing or empty only (part\_000 68), where
  \<open>validateInvoice\<close> and the form's \<open>validate\<close> trim the name before they test it. For
  the name of two blanks the extraction therefore succeeds and no error is reported;
  the draft, which carries the name as extracted, is turned down by both validators.
  For the empty name the extraction fails as the claim says.
\<close>

theorem blank_vendor_extraction_succeeds:
  "extractInvoiceData (Parsed blankVendor) = Inr blankVendor \<and>
   notification (handleCapture sampleIds ''t1'' ''t2'' ''INR'' (Parsed blankVendor) acmeState) =
     None \<and>
   map_option d_vendorName
     (scannedData (handleCapture sampleIds ''t1'' ''t2'' ''INR'' (Parsed blankVendor) acmeState)) =
     Some (Some ''  '') \<and>
   \<not> validateInvoice (invoiceTemplate sampleIds ''t1'' ''INR'' blankVendor [paperItem]) \<and>
   \<not> validate (mountForm sampleEnv
                 (Some (invoiceTemplate sampleIds ''t1'' ''INR'' blankVendor [paperItem]))) \<and>
   extractInvoiceData (Parsed emptyVendor) = Inl AnalysisFailed \<and>
   notification (handleCapture sampleIds ''t1'' ''t2'' ''INR'' (Parsed emptyVendor) acmeState) =
     Some (AnalysisFailed, error)"
  by (simp add: capture_simps form_simps payload_simps sample_simps string_simps Let_def)

subsection \<open>The normalizer\<close>

lemma foldl_add_sum_list:
  "foldl (\<lambda>sum x. sum + g x) a xs = a + (\<Sum>x\<leftarrow>xs. g x)"
  for a :: rat
  by (induction xs arbitrary: a) (simp_all add: add.assoc)

lemma calculateTotal_sum_list:
  "calculateTotal its = (\<Sum>item\<leftarrow>its. quantity item * rate item)"
  by (simp add: calculateTotal_def foldl_add_sum_list)

lemma length_formatItems [simp]: "length (formatItems ids its) = length its"
  by (simp add: formatItems_def)

lemma nth_formatItems:
  "k < length its \<Longrightarrow> formatItems ids its ! k = formatItem (ids k) (its ! k)"
  by (simp add: formatItems_def nth_enumerate_eq)

lemma item_ids_formatItems:
  "map item_id (formatItems ids its) = map ids [0..<length its]"
  by (rule nth_equalityI) (simp_all add: nth_formatItems formatItem_def)

text \<open>
  Claim C8, as stated, fails for a field that is present and empty: an empty currency
  is replaced by the preferred currency (and likewise an empty category or
  description by its default), because the defaults are written with \<^verbatim>\<open>||\<close>.
\<close>

theorem empty_currency_is_replaced:
  "x_currency emptyCurrency = Some [] \<and>
   d_currency (invoiceTemplate sampleIds ''t1'' ''INR'' emptyCurrency [paperItem]) =
     Some ''INR''"
  by (simp add: capture_simps payload_simps Let_def)

text \<open>
  Claim C8, amended. The draft takes the vendor name, the date and the due date as they
  come. A currency, category or description that is present and not empty, a quantity
  that is present and not zero, and a rate and a tag list that are present are taken
  over as they are; a missing or empty description becomes \<^verbatim>\<open>"Item"\<close>, a missing or zero
  quantity 1, a missing rate 0, a missing or empty category \<^verbatim>\<open>"General"\<close>, missing tags
  the empty list and a missing or empty currency the preferred currency. The k-th item
  gets the k-th UUID drawn, so the item ids are distinct when the UUIDs drawn are; the
  total is the sum of quantity times rate over the items of the draft; the status is
  UNPAID and the type expense.
\<close>

theorem template_reproduces_payload:
  "(let t = invoiceTemplate ids now pref data its; fs = formatItems ids its in
      d_vendorName t = x_vendorName data \<and> d_date t = x_date data \<and>
      d_dueDate t = x_dueDate data \<and>
      (\<forall>c. x_currency data = Some c \<and> c \<noteq> [] \<longrightarrow> d_currency t = Some c) \<and>
      (falsy (x_currency data) \<longrightarrow> d_currency t = Some pref) \<and>
      (\<forall>c. x_category data = Some c \<and> c \<noteq> [] \<longrightarrow> d_category t = Some c) \<and>
      (falsy (x_category data) \<longrightarrow> d_category t = Some ''General'') \<and>
      (\<forall>ts. x_tags data = Some ts \<longrightarrow> d_tags t = Some ts) \<and>
      (x_tags data = None \<longrightarrow> d_tags t = Some []) \<and>
      d_status t = Some UNPAID \<and> d_type t = Some expense \<and>
      d_items t = Some fs \<and> length fs = length its \<and>
      d_total t = Some (\<Sum>item\<leftarrow>fs. quantity item * rate item) \<and>
      map item_id fs = map ids [0..<length its] \<and>
      (inj_on ids {0..<length its} \<longrightarrow> distinct (map item_id fs)) \<and>
      (\<forall>k<length its.
         (\<forall>d. x_description (its ! k) = Some d \<and> d \<noteq> [] \<longrightarrow> description (fs ! k) = d) \<and>
         (falsy (x_description (its ! k)) \<longrightarrow> description (fs ! k) = ''Item'') \<and>
         (\<forall>q. x_quantity (its ! k) = Some q \<and> q \<noteq> 0 \<longrightarrow> quantity (fs ! k) = q) \<and>
         (x_quantity (its ! k) = None \<or> x_quantity (its ! k) = Some 0
            \<longrightarrow> quantity (fs ! k) = 1) \<and>
         (\<forall>r. x_rate (its ! k) = Some r \<longrightarrow> rate (fs ! k) = r) \<and>
         (x_rate (its ! k) = None \<longrightarrow> rate (fs ! k) = 0)))"
proof -
  let ?t = "invoiceTemplate ids now pref data its"
  let ?fs = "formatItems ids its"
  have copied: "d_vendorName ?t = x_vendorName data \<and> d_date ?t = x_date data \<and>
      d_dueDate ?t = x_dueDate data \<and> d_status ?t = Some UNPAID \<and> d_type ?t = Some expense \<and>
      d_items ?t = Some ?fs"
    by (simp add: invoiceTemplate_def Let_def)
  have defaults: "(\<forall>c. x_currency data = Some c \<and> c \<noteq> [] \<longrightarrow> d_currency ?t = Some c) \<and>
      (falsy (x_currency data) \<longrightarrow> d_currency ?t = Some pref) \<and>
      (\<forall>c. x_category data = Some c \<and> c \<noteq> [] \<longrightarrow> d_category ?t = Some c) \<and>
      (falsy (x_category data) \<longrightarrow> d_category ?t = Some ''General'') \<and>
      (\<forall>ts. x_tags data = Some ts \<longrightarrow> d_tags ?t = Some ts) \<and>
      (x_tags data = None \<longrightarrow> d_tags ?t = Some [])"
    by (auto simp add: invoiceTemplate_def Let_def orElse_def falsy_def split: option.splits)
  have total: "d_total ?t = Some (\<Sum>item\<leftarrow>?fs. quantity item * rate item)"
    by (simp add: invoiceTemplate_def Let_def calculateTotal_sum_list)
  have ids: "map item_id ?fs = map ids [0..<length its]"
    by (rule item_ids_formatItems)
  have distinct: "inj_on ids {0..<length its} \<longrightarrow> distinct (map item_id ?fs)"
    by (simp add: ids distinct_map)
  have each: "\<forall>k<length its.
         (\<forall>d. x_description (its ! k) = Some d \<and> d \<noteq> [] \<longrightarrow> description (?fs ! k) = d) \<and>
         (falsy (x_description (its ! k)) \<longrightarrow> description (?fs ! k) = ''Item'') \<and>
         (\<forall>q. x_quantity (its ! k) = Some q \<and> q \<noteq> 0 \<longrightarrow> quantity (?fs ! k) = q) \<and>
         (x_quantity (its ! k) = None \<or> x_quantity (its ! k) = Some 0
            \<longrightarrow> quantity (?fs ! k) = 1) \<and>
         (\<forall>r. x_rate (its ! k) = Some r \<longrightarrow> rate (?fs ! k) = r) \<and>
         (x_rate (its ! k) = None \<longrightarrow> rate (?fs ! k) = 0)"
    by (auto simp add: nth_formatItems formatItem_def orElse_def falsy_def split: option.splits)
  show ?thesis
    unfolding Let_def
    using copied defaults total ids distinct each by simp
qed

theorem template_reproduces_payload_witness:
  "x_currency acmeTrailingBlank = Some ''USD'' \<and>
   x_description paperItem = Some ''Paper'' \<and>
   inj_on sampleIds {0..<length [paperItem]} \<and>
   d_vendorName (invoiceTemplate sampleIds ''t1'' ''INR'' acmeTrailingBlank [paperItem]) =
     Some ''Acme '' \<and>
   d_currency (invoiceTemplate sampleIds ''t1'' ''INR'' acmeTrailingBlank [paperItem]) =
     Some ''USD'' \<and>
   d_category (invoiceTemplate sampleIds ''t1'' ''INR'' acmeTrailingBlank [paperItem]) =
     Some ''Office Supplies'' \<and>
   d_tags (invoiceTemplate sampleIds ''t1'' ''INR'' acmeTrailingBlank [paperItem]) =
     Some [''paper''] \<and>
   description (formatItems sampleIds [paperItem] ! 0) = ''Paper'' \<and>
   quantity (formatItems sampleIds [paperItem] ! 0) = 1 \<and>
   rate (formatItems sampleIds [paperItem] ! 0) = 50 \<and>
   distinct (map item_id (formatItems sampleIds [paperItem]))"
  using template_reproduces_payload
          [of sampleIds "''t1''" "''INR''" acmeTrailingBlank "[paperItem]"]
  by (simp add: Let_def paperItem_def acmeTrailingBlank_def falsy_def)

subsection \<open>What the two save paths hand to \<open>handleSaveInvoice\<close>\<close>

lemma asInvoice_template:
  assumes "validateInvoice (invoiceTemplate ids now pref data its)"
  shows "\<exists>invoice. asInvoice newId (invoiceTemplate ids now pref data its) = Some invoice \<and>
           invoice_id invoice = newId \<and> items invoice = formatItems ids its \<and>
           inv_total invoice = calculateTotal (formatItems ids its) \<and>
           status invoice = UNPAID"
proof -
  from assms obtain v dt due where
    "x_vendorName data = Some v" "x_date data = Some dt" "x_dueDate data = Some due"
    by (auto simp add: validateInvoice_iff invoiceTemplate_def Let_def)
  then show ?thesis
    by (simp add: asInvoice_def invoiceTemplate_def Let_def)
qed

lemma handleCapture_cases:
  obtains (failed) err where
      "handleCapture ids now saveTime pref response s = captureFailed err pref s"
  | (review) t where
      "handleCapture ids now saveTime pref response s = s\<lparr>scannedData := Some t, view := EDITING\<rparr>"
      "d_id t = None"
  | (saved) invoice uuid where
      "handleCapture ids now saveTime pref response s =
         (handleSaveInvoice uuid saveTime invoice s)
           \<lparr>notification := Some (AutoSaved, success), view := DASHBOARD\<rparr>"
      "invoice_id invoice = captureInvoiceId ids response"
      "totalMatchesItems invoice" "status invoice = UNPAID"
proof (cases "extractInvoiceData response")
  case (Inl err)
  then have "handleCapture ids now saveTime pref response s = captureFailed err pref s"
    by (simp add: handleCapture_def)
  then show ?thesis by (rule failed)
next
  case (Inr data)
  then have resp: "response = Parsed data"
    by (auto simp add: extractInvoiceData_def split: Response.splits if_splits)
  show ?thesis
  proof (cases "x_items data")
    case None
    with Inr have "handleCapture ids now saveTime pref response s =
                   captureFailed ItemsNotIterable pref s"
      by (simp add: handleCapture_def)
    then show ?thesis by (rule failed)
  next
    case (Some its)
    let ?t = "invoiceTemplate ids now pref data its"
    show ?thesis
    proof (cases "validateInvoice ?t")
      case False
      with Inr Some have "handleCapture ids now saveTime pref response s =
                          s\<lparr>scannedData := Some ?t, view := EDITING\<rparr>"
        by (simp add: handleCapture_def Let_def)
      moreover have "d_id ?t = None"
        by (simp add: invoiceTemplate_def Let_def)
      ultimately show ?thesis by (rule review)
    next
      case True
      from asInvoice_template [OF True, of "ids (length its)"]
      obtain invoice where inv:
        "asInvoice (ids (length its)) ?t = Some invoice"
        "invoice_id invoice = ids (length its)" "items invoice = formatItems ids its"
        "inv_total invoice = calculateTotal (formatItems ids its)" "status invoice = UNPAID"
        by blast
      have "handleCapture ids now saveTime pref response s =
              (handleSaveInvoice (ids (Suc (length its))) saveTime invoice s)
                \<lparr>notification := Some (AutoSaved, success), view := DASHBOARD\<rparr>"
        using Inr Some True inv(1) by (simp add: handleCapture_def Let_def)
      moreover have "invoice_id invoice = captureInvoiceId ids response"
        using inv(2) resp Some by (simp add: captureInvoiceId_def)
      moreover have "totalMatchesItems invoice"
        using inv(3,4) by (simp add: totalMatchesItems_def calculateTotal_sum_list)
      ultimately show ?thesis using inv(5) by (rule saved)
    qed
  qed
qed

lemma formInvoice_total: "totalMatchesItems (formInvoice uuid now initialData f)"
  by (simp add: totalMatchesItems_def formInvoice_def calculateTotal_sum_list)

subsection \<open>The cached total\<close>

lemma save_keeps_totals:
  assumes "totalMatchesItems invoice" and "\<forall>iv\<in>set (invoices s). totalMatchesItems iv"
  shows "\<forall>iv\<in>set (invoices (handleSaveInvoice uuid now invoice s)). totalMatchesItems iv"
proof -
  have "totalMatchesItems (invoice\<lparr>profileId := Some pid, updatedAt := now\<rparr>)" for pid
    using assms(1) by (simp add: totalMatchesItems_def)
  with assms(2) show ?thesis
    by (auto simp add: invoices_save Let_def)
qed

lemma handleSave_keeps_totals:
  assumes "\<forall>iv\<in>set (invoices s). totalMatchesItems iv"
  shows "\<forall>iv\<in>set (invoices (handleSave uuid now saveUuid saveTime f s)). totalMatchesItems iv"
proof (cases "validate f")
  case True
  then show ?thesis
    using save_keeps_totals [OF formInvoice_total assms] by (simp add: handleSave_def)
next
  case False
  with assms show ?thesis by (simp add: handleSave_def)
qed

lemma handleCapture_keeps_totals:
  assumes "\<forall>iv\<in>set (invoices s). totalMatchesItems iv"
  shows "\<forall>iv\<in>set (invoices (handleCapture ids now saveTime pref response s)).
           totalMatchesItems iv"
proof (cases rule: handleCapture_cases [of ids now saveTime pref response s])
  case (failed err)
  with assms show ?thesis by (simp add: captureFailed_def)
next
  case (review t)
  with assms show ?thesis by simp
next
  case (saved invoice uuid)
  then show ?thesis
    using save_keeps_totals [OF saved(3) assms, of uuid saveTime] by simp
qed

lemma marked_invoice_cases:
  assumes "iv' \<in> set (invoices (handleBulkMarkPaid now ids s))"
  shows "\<exists>iv\<in>set (invoices s). iv' = iv \<or> (\<exists>t. iv' = iv\<lparr>status := PAID, updatedAt := t\<rparr>)"
proof -
  from assms obtain k where k: "k < length (invoices s)"
    and iv': "iv' = (if invoice_id (invoices s ! k) \<in> set ids
                     then (invoices s ! k)\<lparr>status := PAID, updatedAt := now k\<rparr>
                     else invoices s ! k)"
    by (auto simp add: handleBulkMarkPaid_def in_set_conv_nth nth_enumerate_eq)
  from k have "invoices s ! k \<in> set (invoices s)" by simp
  with iv' show ?thesis by (cases "invoice_id (invoices s ! k) \<in> set ids") auto
qed

lemma marked_invoice_ids:
  "map invoice_id (invoices (handleBulkMarkPaid now ids s)) = map invoice_id (invoices s)"
  by (rule nth_equalityI) (simp_all add: handleBulkMarkPaid_def nth_enumerate_eq)

lemma bulk_keeps_totals:
  assumes "\<forall>iv\<in>set (invoices s). totalMatchesItems iv"
  shows "\<forall>iv\<in>set (invoices (handleBulkDelete confirmed ids s)). totalMatchesItems iv"
    and "\<forall>iv\<in>set (invoices (handleBulkMarkPaid now ids s)). totalMatchesItems iv"
proof -
  show "\<forall>iv\<in>set (invoices (handleBulkDelete confirmed ids s)). totalMatchesItems iv"
    using assms by (auto simp add: handleBulkDelete_def)
  show "\<forall>iv\<in>set (invoices (handleBulkMarkPaid now ids s)). totalMatchesItems iv"
  proof
    fix iv' assume "iv' \<in> set (invoices (handleBulkMarkPaid now ids s))"
    from marked_invoice_cases [OF this] assms show "totalMatchesItems iv'"
      by (auto simp add: totalMatchesItems_def)
  qed
qed

lemma editForm_app: "editForm g w = Some w' \<Longrightarrow> app w' = app w"
  by (auto simp add: editForm_def split: option.splits if_splits)

lemma step_keeps_totals:
  assumes "step w a = Some w'" and "\<forall>iv\<in>set (invoices (app w)). totalMatchesItems iv"
  shows "\<forall>iv\<in>set (invoices (app w')). totalMatchesItems iv"
proof (cases a)
  case (CaptureDone ids now saveTime pref response env)
  then show ?thesis
    using assms handleCapture_keeps_totals [OF assms(2), of ids now saveTime pref response]
    by (auto simp add: Let_def split: if_splits)
next
  case (FormSave uuid now saveUuid saveTime)
  then show ?thesis
    using assms handleSave_keeps_totals [OF assms(2), of uuid now saveUuid saveTime]
    by (auto simp add: Let_def split: option.splits if_splits)
next
  case (BulkDelete confirmed ids)
  then show ?thesis
    using assms bulk_keeps_totals(1) [OF assms(2), of confirmed ids]
    by (auto split: if_splits)
next
  case (BulkMarkPaid now ids)
  then show ?thesis
    using assms bulk_keeps_totals(2) [OF assms(2), of now ids]
    by (auto split: if_splits)
qed (use assms in \<open>auto simp add: Let_def handleEditInvoice_def dest: editForm_app split: if_splits\<close>)

lemma run_keeps_totals:
  "run w actions = Some w' \<Longrightarrow> \<forall>iv\<in>set (invoices (app w)). totalMatchesItems iv \<Longrightarrow>
   \<forall>iv\<in>set (invoices (app w')). totalMatchesItems iv"
proof (induction actions arbitrary: w)
  case Nil
  then show ?case by simp
next
  case (Cons a actions)
  from Cons.prems(1) obtain w1 where s: "step w a = Some w1" and r: "run w1 actions = Some w'"
    by (auto split: option.splits)
  from step_keeps_totals [OF s Cons.prems(2)] Cons.IH [OF r] show ?case by blast
qed

text \<open>
  Claim C5. In every state the application reaches from its initial state, and after
  a save from such a state through either path (the form's \<open>handleSave\<close>, whatever the
  form holds, and the capture handler, whatever the service answers), every stored
  invoice has a total equal to the sum of quantity times rate over its items.
\<close>

theorem stored_total_is_sum_of_items:
  assumes "run initialWorld actions = Some w"
  shows "(\<forall>iv\<in>set (invoices (app w)).
            inv_total iv = (\<Sum>item\<leftarrow>items iv. quantity item * rate item)) \<and>
         (\<forall>iv\<in>set (invoices (handleSave uuid now saveUuid saveTime f (app w))).
            inv_total iv = (\<Sum>item\<leftarrow>items iv. quantity item * rate item)) \<and>
         (\<forall>iv\<in>set (invoices (handleCapture ids now saveTime pref response (app w))).
            inv_total iv = (\<Sum>item\<leftarrow>items iv. quantity item * rate item))"
proof -
  have "\<forall>iv\<in>set (invoices (app initialWorld)). totalMatchesItems iv"
    by (simp add: initialWorld_def initialState_def)
  with assms have ok: "\<forall>iv\<in>set (invoices (app w)). totalMatchesItems iv"
    by (rule run_keeps_totals)
  from ok handleSave_keeps_totals [OF ok, of uuid now saveUuid saveTime f]
    handleCapture_keeps_totals [OF ok, of ids now saveTime pref response]
  show ?thesis
    by (simp add: totalMatchesItems_def)
qed

theorem stored_total_is_sum_of_items_witness:
  "(case run initialWorld
           [CaptureDone sampleIds ''t1'' ''t2'' ''INR'' (Parsed acmeTrailingBlank) sampleEnv] of
      None \<Rightarrow> False
    | Some w \<Rightarrow>
        map invoice_id (invoices (app w)) = [''inv-B''] \<and>
        map inv_total (invoices (app w)) = [50] \<and>
        list_all (\<lambda>iv. inv_total iv = (\<Sum>item\<leftarrow>items iv. quantity item * rate item))
          (invoices (app w)))"
proof -
  have "\<exists>w. run initialWorld
               [CaptureDone sampleIds ''t1'' ''t2'' ''INR'' (Parsed acmeTrailingBlank) sampleEnv] =
             Some w \<and>
             map invoice_id (invoices (app w)) = [''inv-B''] \<and>
             map inv_total (invoices (app w)) = [50]"
    by (simp add: initialWorld_def initialState_def captureInvoiceId_def storedIds_def
          capture_simps payload_simps save_simps string_simps)
  then obtain w where
    r: "run initialWorld
          [CaptureDone sampleIds ''t1'' ''t2'' ''INR'' (Parsed acmeTrailingBlank) sampleEnv] =
        Some w"
    and v: "map invoice_id (invoices (app w)) = [''inv-B'']"
           "map inv_total (invoices (app w)) = [50]"
    by auto
  from stored_total_is_sum_of_items
         [OF r, where uuid = "''u''" and now = "''t''" and saveUuid = "''u2''"
            and saveTime = "''t2''" and f = "mountForm sampleEnv None" and ids = sampleIds
            and pref = "''INR''" and response = NoText]
  show ?thesis
    using r v by (simp add: list_all_iff)
qed

subsection \<open>Paid invoices stay paid\<close>

lemma distinct_map_eq:
  "distinct (map h xs) \<Longrightarrow> x \<in> set xs \<Longrightarrow> y \<in> set xs \<Longrightarrow> h x = h y \<Longrightarrow> x = y"
  by (auto simp add: distinct_map dest: inj_onD)

lemma distinctIds_save:
  assumes "distinctIds s"
  shows "distinctIds (handleSaveInvoice uuid now i s)"
proof (cases "invoice_id i \<in> storedIds s")
  case True
  have "map (invoice_id \<circ> (\<lambda>iv. if invoice_id iv = invoice_id i then c else iv)) xs =
        map invoice_id xs" if "invoice_id c = invoice_id i" for c xs
    using that by (induction xs) auto
  from this [of "i\<lparr>profileId := Some (assignedProfileId uuid i s), updatedAt := now\<rparr>" "invoices s"]
  have same: "map (invoice_id \<circ>
                    (\<lambda>iv. if invoice_id iv = invoice_id i
                          then i\<lparr>profileId := Some (assignedProfileId uuid i s), updatedAt := now\<rparr>
                          else iv)) (invoices s) =
              map invoice_id (invoices s)"
    by simp
  show ?thesis
    using True assms by (simp add: distinctIds_def invoices_save Let_def same)
next
  case False
  with assms show ?thesis
    by (simp add: distinctIds_def invoices_save Let_def storedIds_def)
qed

lemma keepsPaid_refl: "distinctIds s \<Longrightarrow> invoices s' = invoices s \<Longrightarrow> keepsPaid s s'"
  unfolding keepsPaid_def distinctIds_def
  by (metis distinct_map_eq)

lemma keepsPaid_save:
  assumes d: "distinctIds s"
    and st: "\<forall>iv\<in>set (invoices s).
               invoice_id iv = invoice_id i \<longrightarrow> status iv = PAID \<longrightarrow> status i = PAID"
  shows "keepsPaid s (handleSaveInvoice uuid now i s)"
  unfolding keepsPaid_def
proof (intro ballI impI)
  fix iv iv'
  assume iv: "iv \<in> set (invoices s)" "status iv = PAID"
    and iv': "iv' \<in> set (invoices (handleSaveInvoice uuid now i s))"
             "invoice_id iv' = invoice_id iv"
  let ?stored = "i\<lparr>profileId := Some (assignedProfileId uuid i s), updatedAt := now\<rparr>"
  from iv'(1) have "iv' = ?stored \<or> iv' \<in> set (invoices s)"
    by (auto simp add: invoices_save Let_def split: if_splits)
  then show "status iv' = PAID"
  proof
    assume "iv' = ?stored"
    with iv iv'(2) st show ?thesis by auto
  next
    assume "iv' \<in> set (invoices s)"
    with d iv iv'(2) have "iv' = iv"
      unfolding distinctIds_def by (metis distinct_map_eq)
    with iv(2) show ?thesis by simp
  qed
qed

lemma distinctIds_bulk:
  assumes "distinctIds s"
  shows "distinctIds (handleBulkDelete confirmed ids s)"
    and "distinctIds (handleBulkMarkPaid now ids s)"
proof -
  show "distinctIds (handleBulkDelete confirmed ids s)"
    using assms by (simp add: distinctIds_def handleBulkDelete_def distinct_map_filter)
  show "distinctIds (handleBulkMarkPaid now ids s)"
    using assms by (simp add: distinctIds_def marked_invoice_ids)
qed

lemma keepsPaid_bulkDelete:
  assumes "distinctIds s"
  shows "keepsPaid s (handleBulkDelete confirmed ids s)"
  unfolding keepsPaid_def
proof (intro ballI impI)
  fix iv iv'
  assume iv: "iv \<in> set (invoices s)" "status iv = PAID"
    and iv': "iv' \<in> set (invoices (handleBulkDelete confirmed ids s))"
             "invoice_id iv' = invoice_id iv"
  from iv'(1) have "iv' \<in> set (invoices s)"
    by (auto simp add: handleBulkDelete_def split: if_splits)
  with assms iv iv'(2) have "iv' = iv"
    unfolding distinctIds_def by (metis distinct_map_eq)
  with iv(2) show "status iv' = PAID" by simp
qed

lemma keepsPaid_bulkMarkPaid:
  assumes "distinctIds s"
  shows "keepsPaid s (handleBulkMarkPaid now ids s)"
  unfolding keepsPaid_def
proof (intro ballI impI)
  fix iv iv'
  assume iv: "iv \<in> set (invoices s)" "status iv = PAID"
    and iv': "iv' \<in> set (invoices (handleBulkMarkPaid now ids s))"
             "invoice_id iv' = invoice_id iv"
  from marked_invoice_cases [OF iv'(1)] have "status iv' = PAID \<or> iv' \<in> set (invoices s)"
    by auto
  then show "status iv' = PAID"
  proof
    assume "iv' \<in> set (invoices s)"
    with assms iv iv'(2) have "iv' = iv"
      unfolding distinctIds_def by (metis distinct_map_eq)
    with iv(2) show ?thesis by simp
  qed simp
qed

lemma fresh_id_not_stored:
  "invoice_id i \<notin> storedIds s \<Longrightarrow>
   \<forall>iv\<in>set (invoices s). invoice_id iv = invoice_id i \<longrightarrow> status iv = PAID \<longrightarrow> status i = PAID"
  by (auto simp add: storedIds_def image_iff)

lemma capture_distinct_keepsPaid:
  assumes d: "distinctIds s" and fresh: "captureInvoiceId ids response \<notin> storedIds s"
  shows "distinctIds (handleCapture ids now saveTime pref response s) \<and>
         keepsPaid s (handleCapture ids now saveTime pref response s) \<and>
         falsy (editedId (handleCapture ids now saveTime pref response s))"
proof (cases rule: handleCapture_cases [of ids now saveTime pref response s])
  case (failed err)
  then show ?thesis
    using d keepsPaid_refl [OF d, of "captureFailed err pref s"]
    by (simp add: captureFailed_def distinctIds_def editedId_def falsy_def emptyDraft_def)
next
  case (review t)
  then show ?thesis
    using d keepsPaid_refl [OF d, of "s\<lparr>scannedData := Some t, view := EDITING\<rparr>"]
    by (simp add: distinctIds_def editedId_def falsy_def)
next
  case (saved invoice uuid)
  from fresh saved(2) have nf: "invoice_id invoice \<notin> storedIds s" by simp
  have k: "keepsPaid s (handleSaveInvoice uuid saveTime invoice s)"
    by (rule keepsPaid_save [OF d fresh_id_not_stored [OF nf]])
  have sd: "scannedData (handleSaveInvoice uuid saveTime invoice s) = None"
    by (simp add: handleSaveInvoice_def Let_def)
  show ?thesis
    using saved(1) distinctIds_save [OF d, of uuid saveTime invoice] k sd
    by (simp add: distinctIds_def keepsPaid_def editedId_def falsy_def)
qed

lemma editForm_cases:
  assumes "editForm g w = Some w'"
  obtains f where "form w = Some f" "view (app w) = EDITING" "w' = w\<lparr>form := Some (g f)\<rparr>"
  using assms by (auto simp add: editForm_def split: option.splits if_splits)

lemma editForm_invariant:
  assumes "editForm g w = Some w'" and "worldInvariant w" and "\<And>f. f_status (g f) = f_status f"
  shows "worldInvariant w' \<and> keepsPaid (app w) (app w')"
proof -
  from assms(1) obtain f where f: "form w = Some f" "view (app w) = EDITING"
    "w' = w\<lparr>form := Some (g f)\<rparr>"
    by (rule editForm_cases)
  from assms(2) have d: "distinctIds (app w)" by (simp add: worldInvariant_def)
  show ?thesis
    using assms(2,3) f keepsPaid_refl [OF d, of "app w"]
    by (auto simp add: worldInvariant_def)
qed

lemma formSave_step:
  assumes inv: "worldInvariant w" and f: "form w = Some f" and v: "view (app w) = EDITING"
    and fresh: "\<not> (falsy (editedId (app w)) \<and> uuid \<in> storedIds (app w))"
  shows "distinctIds (handleSave uuid now saveUuid saveTime f (app w)) \<and>
         keepsPaid (app w) (handleSave uuid now saveUuid saveTime f (app w)) \<and>
         (view (handleSave uuid now saveUuid saveTime f (app w)) = EDITING \<longrightarrow>
            handleSave uuid now saveUuid saveTime f (app w) = app w) \<and>
         (view (handleSave uuid now saveUuid saveTime f (app w)) \<noteq> EDITING \<longrightarrow>
            falsy (editedId (handleSave uuid now saveUuid saveTime f (app w))))"
proof (cases "validate f")
  case False
  from inv have d: "distinctIds (app w)" by (simp add: worldInvariant_def)
  with False v show ?thesis
    using keepsPaid_refl [OF d, of "app w"] by (simp add: handleSave_def)
next
  case True
  let ?s = "app w"
  let ?i = "formInvoice uuid now (scannedData ?s) f"
  from inv have d: "distinctIds ?s" by (simp add: worldInvariant_def)
  have st: "\<forall>iv\<in>set (invoices ?s).
               invoice_id iv = invoice_id ?i \<longrightarrow> status iv = PAID \<longrightarrow> status ?i = PAID"
  proof (cases "falsy (editedId ?s)")
    case True
    with fresh have "uuid \<notin> storedIds ?s" by simp
    moreover from True have "invoice_id ?i = uuid"
      by (auto simp add: formInvoice_def editedId_def orElse_def falsy_def split: option.splits)
    ultimately have "invoice_id ?i \<notin> storedIds ?s" by simp
    then show ?thesis by (rule fresh_id_not_stored)
  next
    case False
    then obtain k where k: "editedId ?s = Some k" "k \<noteq> []"
      by (auto simp add: falsy_def split: option.splits)
    then have id: "invoice_id ?i = k"
      by (simp add: formInvoice_def editedId_def orElse_def)
    from inv False f have "\<forall>iv\<in>set (invoices ?s).
        Some (invoice_id iv) = editedId ?s \<longrightarrow> status iv = f_status f"
      by (auto simp add: worldInvariant_def)
    with k id show ?thesis
      by (auto simp add: formInvoice_def)
  qed
  have sv: "handleSave uuid now saveUuid saveTime f ?s = handleSaveInvoice saveUuid saveTime ?i ?s"
    using True by (simp add: handleSave_def)
  have after: "view (handleSaveInvoice saveUuid saveTime ?i ?s) = DASHBOARD \<and>
               scannedData (handleSaveInvoice saveUuid saveTime ?i ?s) = None"
    by (simp add: handleSaveInvoice_def Let_def)
  show ?thesis
    using distinctIds_save [OF d, of saveUuid saveTime ?i] keepsPaid_save [OF d st, of saveUuid saveTime]
      after
    by (simp add: sv editedId_def falsy_def)
qed

lemma not_editing_falsy:
  "worldInvariant w \<Longrightarrow> view (app w) \<noteq> EDITING \<Longrightarrow> falsy (editedId (app w))"
  by (auto simp add: worldInvariant_def)

lemma step_invariant_keepsPaid:
  assumes "step w a = Some w'" and inv: "worldInvariant w"
  shows "worldInvariant w' \<and> keepsPaid (app w) (app w')"
proof -
  from inv have d: "distinctIds (app w)" by (simp add: worldInvariant_def)
  note refl = keepsPaid_refl [OF d]
  show ?thesis
  proof (cases a)
    case OpenScanner
    with assms(1) have v: "view (app w) = DASHBOARD" and w': "w' = \<lparr>app = (app w)\<lparr>view := SCANNING\<rparr>, form = None\<rparr>"
      by (auto split: if_splits)
    from inv v have "falsy (editedId (app w))" by (simp add: not_editing_falsy)
    with w' d refl [of "(app w)\<lparr>view := SCANNING\<rparr>"] show ?thesis
      by (simp add: worldInvariant_def distinctIds_def editedId_def)
  next
    case (OpenManual pref env)
    with assms(1) have w': "w' = \<lparr>app = (app w)\<lparr>scannedData := Some (emptyDraft\<lparr>d_currency := Some pref\<rparr>), view := EDITING\<rparr>,
        form = Some (mountForm env (Some (emptyDraft\<lparr>d_currency := Some pref\<rparr>)))\<rparr>"
      by (auto simp add: Let_def split: if_splits)
    with d refl [of "(app w)\<lparr>scannedData := Some (emptyDraft\<lparr>d_currency := Some pref\<rparr>), view := EDITING\<rparr>"]
    show ?thesis
      by (simp add: worldInvariant_def distinctIds_def editedId_def emptyDraft_def falsy_def)
  next
    case (EditInvoice invoice env)
    with assms(1) have mem: "invoice \<in> set (invoices (app w))"
      and w': "w' = \<lparr>app = handleEditInvoice invoice (app w),
                     form = Some (mountForm env (Some (draftOfInvoice invoice)))\<rparr>"
      by (auto simp add: Let_def handleEditInvoice_def split: if_splits)
    have "\<forall>iv\<in>set (invoices (app w)). invoice_id iv = invoice_id invoice \<longrightarrow> status iv = status invoice"
      using d mem unfolding distinctIds_def by (metis distinct_map_eq)
    with w' d refl [of "handleEditInvoice invoice (app w)"] show ?thesis
      by (simp add: worldInvariant_def distinctIds_def editedId_def handleEditInvoice_def
            draftOfInvoice_def mountForm_def)
  next
    case (BulkDelete confirmed ids)
    with assms(1) have v: "view (app w) = DASHBOARD"
      and w': "w' = \<lparr>app = handleBulkDelete confirmed ids (app w), form = None\<rparr>"
      by (auto split: if_splits)
    from inv v have "falsy (editedId (app w))" by (simp add: not_editing_falsy)
    with w' v distinctIds_bulk(1) [OF d, of confirmed ids] keepsPaid_bulkDelete [OF d, of confirmed ids]
    show ?thesis
      by (simp add: worldInvariant_def editedId_def handleBulkDelete_def)
  next
    case (BulkMarkPaid now ids)
    with assms(1) have v: "view (app w) = DASHBOARD"
      and w': "w' = \<lparr>app = handleBulkMarkPaid now ids (app w), form = None\<rparr>"
      by (auto split: if_splits)
    from inv v have "falsy (editedId (app w))" by (simp add: not_editing_falsy)
    with w' v distinctIds_bulk(2) [OF d, of now ids] keepsPaid_bulkMarkPaid [OF d, of now ids]
    show ?thesis
      by (simp add: worldInvariant_def editedId_def handleBulkMarkPaid_def)
  next
    case CancelScanner
    with assms(1) have v: "view (app w) = SCANNING" and w': "w' = \<lparr>app = (app w)\<lparr>view := DASHBOARD\<rparr>, form = None\<rparr>"
      by (auto split: if_splits)
    from inv v have "falsy (editedId (app w))" by (simp add: not_editing_falsy)
    with w' d refl [of "(app w)\<lparr>view := DASHBOARD\<rparr>"] show ?thesis
      by (simp add: worldInvariant_def distinctIds_def editedId_def)
  next
    case (CaptureDone ids now saveTime pref response env)
    let ?s' = "handleCapture ids now saveTime pref response (app w)"
    from CaptureDone assms(1) have fresh: "captureInvoiceId ids response \<notin> storedIds (app w)"
      and w': "w' = \<lparr>app = ?s',
                     form = (if view ?s' = EDITING
                             then (case form w of
                                     None \<Rightarrow> Some (mountForm env (scannedData ?s'))
                                   | Some f \<Rightarrow> Some (initialDataEffect (scannedData ?s') f))
                             else None)\<rparr>"
      by (auto simp add: Let_def split: if_splits)
    from capture_distinct_keepsPaid [OF d fresh, of now saveTime pref] w'
    show ?thesis
      by (auto simp add: worldInvariant_def split: option.splits)
  next
    case (FormSave uuid now saveUuid saveTime)
    with assms(1) obtain f where f: "form w = Some f" and v: "view (app w) = EDITING"
      and fresh: "\<not> (falsy (editedId (app w)) \<and> uuid \<in> storedIds (app w))"
      and w': "w' = \<lparr>app = handleSave uuid now saveUuid saveTime f (app w),
                     form = (if view (handleSave uuid now saveUuid saveTime f (app w)) = EDITING
                             then Some f else None)\<rparr>"
      by (auto simp add: Let_def editedId_def split: option.splits if_splits)
    from formSave_step [OF inv f v fresh, of now saveUuid saveTime] inv f w'
    show ?thesis
      by (auto simp add: worldInvariant_def)
  next
    case FormCancel
    with assms(1) have w': "w' = \<lparr>app = (app w)\<lparr>view := DASHBOARD, scannedData := None\<rparr>, form = None\<rparr>"
      by (auto split: if_splits)
    with d refl [of "(app w)\<lparr>view := DASHBOARD, scannedData := None\<rparr>"] show ?thesis
      by (simp add: worldInvariant_def distinctIds_def editedId_def falsy_def)
  next
    case Reload
    with assms(1) have w': "w' = \<lparr>app = initialState\<lparr>invoices := invoices (app w),
                                                   profiles := profiles (app w)\<rparr>,
                                form = None\<rparr>"
      by simp
    with d refl [of "initialState\<lparr>invoices := invoices (app w), profiles := profiles (app w)\<rparr>"]
    show ?thesis
      by (simp add: worldInvariant_def distinctIds_def editedId_def falsy_def initialState_def)
  next
    case (SetVendorName x)
    with assms(1) have "editForm (\<lambda>f. f\<lparr>f_vendorName := x\<rparr>) w = Some w'" by simp
    then show ?thesis using inv by (rule editForm_invariant) (simp)
  next
    case (SetDate x)
    with assms(1) have "editForm (\<lambda>f. f\<lparr>f_date := x\<rparr>) w = Some w'" by simp
    then show ?thesis using inv by (rule editForm_invariant) (simp)
  next
    case (SetDueDate x)
    with assms(1) have "editForm (\<lambda>f. f\<lparr>f_dueDate := x\<rparr>) w = Some w'" by simp
    then show ?thesis using inv by (rule editForm_invariant) (simp)
  next
    case (AddTag x)
    with assms(1) have "editForm (addTag x) w = Some w'" by simp
    then show ?thesis using inv by (rule editForm_invariant) (simp add: addTag_def)
  next
    case (RemoveTag x)
    with assms(1) have "editForm (removeTag x) w = Some w'" by simp
    then show ?thesis using inv by (rule editForm_invariant) (simp add: removeTag_def)
  next
    case (AddItem x)
    with assms(1) have "editForm (addItem x) w = Some w'" by simp
    then show ?thesis using inv by (rule editForm_invariant) (simp add: addItem_def)
  next
    case (UpdateItem x y)
    with assms(1) have "editForm (updateItem x y) w = Some w'" by simp
    then show ?thesis using inv by (rule editForm_invariant) (simp add: updateItem_def)
  next
    case (RemoveItem x)
    with assms(1) have "editForm (removeItem x) w = Some w'" by simp
    then show ?thesis using inv by (rule editForm_invariant) (simp add: removeItem_def)
  qed
qed

lemma run_invariant:
  "run w actions = Some w' \<Longrightarrow> worldInvariant w \<Longrightarrow> worldInvariant w'"
proof (induction actions arbitrary: w)
  case Nil
  then show ?case by simp
next
  case (Cons a actions)
  from Cons.prems(1) obtain w1 where s: "step w a = Some w1" and r: "run w1 actions = Some w'"
    by (auto split: option.splits)
  from step_invariant_keepsPaid [OF s Cons.prems(2)] Cons.IH [OF r] show ?case by blast
qed

lemma worldInvariant_initial: "worldInvariant initialWorld"
  by (simp add: worldInvariant_def initialWorld_def initialState_def distinctIds_def
        editedId_def falsy_def)

text \<open>
  Claim C9. From a state the application can reach, whatever the user or the
  extraction service does next (saving through the form, the automatic save after a
  capture, bulk delete, bulk mark-as-paid, or any other action), an invoice that is
  stored as paid is not stored as unpaid under the same id afterwards, provided the
  UUIDs drawn for new invoices are fresh. The stored status has the two values PAID
  and UNPAID only; OVERDUE belongs to the derived status, which is computed when read.
\<close>

theorem paid_is_never_reverted:
  assumes "run initialWorld actions = Some w" and "step w a = Some w'"
  shows "(\<forall>iv\<in>set (invoices (app w)). status iv = PAID \<longrightarrow>
            (\<forall>iv'\<in>set (invoices (app w')).
               invoice_id iv' = invoice_id iv \<longrightarrow> status iv' \<noteq> UNPAID)) \<and>
         (\<forall>iv'\<in>set (invoices (app w')). status iv' = PAID \<or> status iv' = UNPAID)"
proof -
  from assms(1) worldInvariant_initial have "worldInvariant w"
    by (rule run_invariant)
  with assms(2) have "keepsPaid (app w) (app w')"
    using step_invariant_keepsPaid by blast
  moreover have "st = PAID \<or> st = UNPAID" for st
    by (cases st) simp_all
  ultimately show ?thesis
    by (auto simp add: keepsPaid_def)
qed

lemmas world_simps =
  initialWorld_def initialState_def captureInvoiceId_def storedIds_def editForm_def
  handleEditInvoice_def draftOfInvoice_def handleBulkMarkPaid_def handleBulkDelete_def

theorem paid_is_never_reverted_witness:
  "(case run initialWorld sampleSession of
      None \<Rightarrow> False
    | Some w \<Rightarrow>
        (case step w (FormSave ''inv-C'' ''t4'' ''prof-3'' ''t5'') of
           None \<Rightarrow> False
         | Some w' \<Rightarrow>
             map (\<lambda>iv. (invoice_id iv, vendorName iv, status iv)) (invoices (app w)) =
               [(''inv-B'', ''Acme '', PAID)] \<and>
             map (\<lambda>iv. (invoice_id iv, vendorName iv, status iv)) (invoices (app w')) =
               [(''inv-B'', ''Acme'', PAID)] \<and>
             list_all (\<lambda>iv. status iv \<noteq> UNPAID) (invoices (app w'))))"
proof -
  have "\<exists>w w'. run initialWorld sampleSession = Some w \<and>
          step w (FormSave ''inv-C'' ''t4'' ''prof-3'' ''t5'') = Some w' \<and>
          map (\<lambda>iv. (invoice_id iv, vendorName iv, status iv)) (invoices (app w)) =
            [(''inv-B'', ''Acme '', PAID)] \<and>
          map (\<lambda>iv. (invoice_id iv, vendorName iv, status iv)) (invoices (app w')) =
            [(''inv-B'', ''Acme'', PAID)]"
    by (simp add: sampleSession_def paidInvoice_def world_simps capture_simps form_simps
          payload_simps save_simps string_simps)
  then obtain w w' where
    r: "run initialWorld sampleSession = Some w"
    and s: "step w (FormSave ''inv-C'' ''t4'' ''prof-3'' ''t5'') = Some w'"
    and v: "map (\<lambda>iv. (invoice_id iv, vendorName iv, status iv)) (invoices (app w)) =
              [(''inv-B'', ''Acme '', PAID)]"
           "map (\<lambda>iv. (invoice_id iv, vendorName iv, status iv)) (invoices (app w')) =
              [(''inv-B'', ''Acme'', PAID)]"
    by auto
  from v(1) obtain iv where iv: "invoices (app w) = [iv]" "invoice_id iv = ''inv-B''" "status iv = PAID"
    by auto
  from v(2) obtain iv' where iv': "invoices (app w') = [iv']" "invoice_id iv' = ''inv-B''"
    by auto
  from paid_is_never_reverted [OF r s] iv iv' have "status iv' \<noteq> UNPAID"
    by simp
  with iv' r s v show ?thesis
    by simp
qed

end
